theory Spec2Isabelle
  imports Main "HOL-Library.Sublist"
begin

section \<open>JavaScript values\<close>

text \<open>
  The adapter moves JavaScript values between the plugin host and the remote service
  without looking inside them. A string is a list of UTF-16 code units, each a number
  below \<open>65536\<close>; \<open>js\<close> embeds a literal of the program text. A value is a \<open>json\<close>;
  \<open>undefined\<close> is \<open>None\<close> of \<open>json option\<close>. An object is its list of members in property
  order.
\<close>

type_synonym code_unit = nat
type_synonym ustring = "code_unit list"

definition js :: "string \<Rightarrow> ustring" where
  "js s = map of_char s"

text \<open>
  A number is held by the decimal digits that \<open>Number::toString\<close> prints for it:
  \<open>Finite neg m d e\<close> is \<open>\<plusminus>(10 m + d) 10\<^sup>e\<close> with a last digit \<open>d\<close> that is not zero, so
  every finite number other than zero has exactly one representation. The two zeros and
  the two infinities are values of their own. \<open>NaN\<close> does not occur: every number of this
  program was read from JSON text.
\<close>

datatype nonzero_digit = D1 | D2 | D3 | D4 | D5 | D6 | D7 | D8 | D9

fun digit_of :: "nonzero_digit \<Rightarrow> nat" where
  "digit_of D1 = 1" | "digit_of D2 = 2" | "digit_of D3 = 3"
| "digit_of D4 = 4" | "digit_of D5 = 5" | "digit_of D6 = 6"
| "digit_of D7 = 7" | "digit_of D8 = 8" | "digit_of D9 = 9"

definition nonzero_digit_of :: "nat \<Rightarrow> nonzero_digit" where
  "nonzero_digit_of n =
     (if n = 1 then D1 else if n = 2 then D2 else if n = 3 then D3 else if n = 4 then D4
      else if n = 5 then D5 else if n = 6 then D6 else if n = 7 then D7 else if n = 8 then D8
      else D9)"

datatype number =
    Zero bool
  | Finite bool nat nonzero_digit int
  | Infinity bool

datatype json =
    JNull
  | JBool bool
  | JNumber number
  | JString ustring
  | JArray "json list"
  | JObject "(ustring \<times> json) list"

fun join :: "ustring \<Rightarrow> ustring list \<Rightarrow> ustring" where
  "join sep [] = []"
| "join sep [x] = x"
| "join sep (x # y # ys) = x @ sep @ join sep (y # ys)"

subsection \<open>Numbers\<close>

text \<open>
  \<open>decimal neg v e\<close> is the number \<open>\<plusminus>v 10\<^sup>e\<close>: trailing zeros of \<open>v\<close> go to the exponent.
  \<open>Number_of_int\<close> is the number an integer of the program (a status, an error code) is.
\<close>

function strip_zeros :: "nat \<Rightarrow> int \<Rightarrow> nat \<times> int" where
  "strip_zeros v e = (if v = 0 \<or> v mod 10 \<noteq> 0 then (v, e) else strip_zeros (v div 10) (e + 1))"
  by pat_completeness auto
termination
  by (relation "measure fst") auto

declare strip_zeros.simps [simp del]

definition decimal :: "bool \<Rightarrow> nat \<Rightarrow> int \<Rightarrow> number" where
  "decimal neg v e =
     (if v = 0 then Zero neg
      else (case strip_zeros v e of (s, e') \<Rightarrow> Finite neg (s div 10) (nonzero_digit_of (s mod 10)) e'))"

definition Number_of_int :: "int \<Rightarrow> number" where
  "Number_of_int i = decimal (i < 0) (nat \<bar>i\<bar>) 0"

text \<open>
  \<open>Number::toString\<close> of ECMAScript, radix 10. With \<open>k\<close> digits and the decimal point after
  the \<open>n\<close>-th of them: the digits and \<open>n - k\<close> zeros when \<open>k \<le> n \<le> 21\<close>; the digits with a
  point inside when \<open>0 < n \<le> 21\<close>; \<open>0.\<close>, \<open>-n\<close> zeros and the digits when \<open>-6 < n \<le> 0\<close>; and
  the exponent notation otherwise, so \<open>10\<^sup>2\<^sup>1\<close> prints as \<open>1e+21\<close>.
\<close>

fun nat_to_string :: "nat \<Rightarrow> ustring" where
  "nat_to_string n =
     (if n < 10 then [48 + n] else nat_to_string (n div 10) @ [48 + n mod 10])"

declare nat_to_string.simps [simp del]

definition exponent_text :: "int \<Rightarrow> ustring" where
  "exponent_text j = (if j < 0 then js ''-'' else js ''+'') @ nat_to_string (nat \<bar>j\<bar>)"

definition Number_toString :: "number \<Rightarrow> ustring" where
  "Number_toString x =
     (case x of
        Zero neg \<Rightarrow> js ''0''
      | Infinity neg \<Rightarrow> (if neg then js ''-Infinity'' else js ''Infinity'')
      | Finite neg m d e \<Rightarrow>
          (let ds = nat_to_string (10 * m + digit_of d);
               k = length ds;
               n = e + int k
           in (if neg then js ''-'' else [])
              @ (if int k \<le> n \<and> n \<le> 21 then ds @ replicate (nat (n - int k)) 48
                 else if 0 < n \<and> n \<le> 21 then take (nat n) ds @ js ''.'' @ drop (nat n) ds
                 else if - 6 < n \<and> n \<le> 0 then js ''0.'' @ replicate (nat (- n)) 48 @ ds
                 else if k = 1 then ds @ js ''e'' @ exponent_text (n - 1)
                 else take 1 ds @ js ''.'' @ drop 1 ds @ js ''e'' @ exponent_text (n - 1))))"

subsection \<open>JSON.stringify\<close>

text \<open>
  \<open>JSON.stringify(value, null, space)\<close> as ECMAScript defines it. \<open>QuoteJSONString\<close>
  escapes the quote, the backslash and the control characters, writes a surrogate that
  has no partner as a \<open>\u\<close> escape and leaves every other code unit as it is. A number
  that is not finite is printed as \<open>null\<close>. \<open>SerializeJSONProperty\<close> lays arrays and
  objects out with the indentation unit \<open>gap\<close> (empty for the compact form).
\<close>

definition hex_digit :: "nat \<Rightarrow> code_unit" where
  "hex_digit d = (if d < 10 then 48 + d else 87 + d)"

definition UnicodeEscape :: "code_unit \<Rightarrow> ustring" where
  "UnicodeEscape c =
     [0x5C, 0x75, hex_digit (c div 4096 mod 16), hex_digit (c div 256 mod 16),
      hex_digit (c div 16 mod 16), hex_digit (c mod 16)]"

definition is_leading_surrogate :: "code_unit \<Rightarrow> bool" where
  "is_leading_surrogate c \<longleftrightarrow> 0xD800 \<le> c \<and> c \<le> 0xDBFF"

definition is_trailing_surrogate :: "code_unit \<Rightarrow> bool" where
  "is_trailing_surrogate c \<longleftrightarrow> 0xDC00 \<le> c \<and> c \<le> 0xDFFF"

definition QuoteJSONChar :: "code_unit \<Rightarrow> ustring" where
  "QuoteJSONChar c =
     (if c = 0x08 then [0x5C, 0x62]
      else if c = 0x09 then [0x5C, 0x74]
      else if c = 0x0A then [0x5C, 0x6E]
      else if c = 0x0C then [0x5C, 0x66]
      else if c = 0x0D then [0x5C, 0x72]
      else if c = 0x22 then [0x5C, 0x22]
      else if c = 0x5C then [0x5C, 0x5C]
      else if c < 0x20 \<or> is_leading_surrogate c \<or> is_trailing_surrogate c then UnicodeEscape c
      else [c])"

fun QuoteJSONUnits :: "ustring \<Rightarrow> ustring" where
  "QuoteJSONUnits [] = []"
| "QuoteJSONUnits [c] = QuoteJSONChar c"
| "QuoteJSONUnits (c # d # cs) =
     (if is_leading_surrogate c \<and> is_trailing_surrogate d then c # d # QuoteJSONUnits cs
      else QuoteJSONChar c @ QuoteJSONUnits (d # cs))"

definition QuoteJSONString :: "ustring \<Rightarrow> ustring" where
  "QuoteJSONString s = [0x22] @ QuoteJSONUnits s @ [0x22]"

definition is_finite :: "number \<Rightarrow> bool" where
  "is_finite x = (case x of Infinity neg \<Rightarrow> False | _ \<Rightarrow> True)"

fun SerializeJSONProperty :: "ustring \<Rightarrow> ustring \<Rightarrow> json \<Rightarrow> ustring" where
  "SerializeJSONProperty gap indent JNull = js ''null''"
| "SerializeJSONProperty gap indent (JBool b) = (if b then js ''true'' else js ''false'')"
| "SerializeJSONProperty gap indent (JNumber x) =
     (if is_finite x then Number_toString x else js ''null'')"
| "SerializeJSONProperty gap indent (JString s) = QuoteJSONString s"
| "SerializeJSONProperty gap indent (JArray vs) =
     (let stepback = indent; indent' = indent @ gap;
          partial = map (SerializeJSONProperty gap indent') vs
      in if partial = [] then js ''[]''
         else if gap = [] then js ''['' @ join (js '','') partial @ js '']''
         else js ''['' @ [0x0A] @ indent' @ join (js '','' @ [0x0A] @ indent') partial
              @ [0x0A] @ stepback @ js '']'')"
| "SerializeJSONProperty gap indent (JObject kvs) =
     (let stepback = indent; indent' = indent @ gap;
          partial = map (\<lambda>(k, v). QuoteJSONString k @ js '':'' @ (if gap = [] then [] else js '' '')
                            @ SerializeJSONProperty gap indent' v) kvs
      in if partial = [] then js ''{}''
         else if gap = [] then js ''{'' @ join (js '','') partial @ js ''}''
         else js ''{'' @ [0x0A] @ indent' @ join (js '','' @ [0x0A] @ indent') partial
              @ [0x0A] @ stepback @ js ''}'')"

definition JSON_stringify :: "json \<Rightarrow> nat \<Rightarrow> ustring" where
  "JSON_stringify v space = SerializeJSONProperty (replicate (min space 10) 0x20) [] v"

subsection \<open>JSON.parse\<close>

text \<open>
  The deserialiser a reader of the text applies: \<open>JSON.parse\<close> over the JSON grammar
  (white space, literals, numbers with their fraction and exponent, strings with their
  escapes, arrays, objects). A number is read as the decimal the text writes; the
  rounding to the nearest double that JavaScript applies to a text of more digits than a
  double holds is not modelled, and \<open>Number::toString\<close> never prints such a text. The
  members of an object are kept in the order of the text. The value parser recurses with
  fuel; \<open>JSON_parse\<close> gives it more fuel than the text has code units.
\<close>

definition is_ws :: "code_unit \<Rightarrow> bool" where
  "is_ws c \<longleftrightarrow> c = 0x20 \<or> c = 0x09 \<or> c = 0x0A \<or> c = 0x0D"

definition skip_ws :: "ustring \<Rightarrow> ustring" where
  "skip_ws s = dropWhile is_ws s"

definition is_digit :: "code_unit \<Rightarrow> bool" where
  "is_digit c \<longleftrightarrow> 48 \<le> c \<and> c \<le> 57"

definition digits_value :: "ustring \<Rightarrow> nat" where
  "digits_value ds = foldl (\<lambda>a c. 10 * a + (c - 48)) 0 ds"

definition hex_value :: "code_unit \<Rightarrow> nat option" where
  "hex_value c =
     (if 48 \<le> c \<and> c \<le> 57 then Some (c - 48)
      else if 97 \<le> c \<and> c \<le> 102 then Some (c - 87)
      else if 65 \<le> c \<and> c \<le> 70 then Some (c - 55)
      else None)"

definition unescape :: "code_unit \<Rightarrow> code_unit option" where
  "unescape e =
     (if e = 0x22 then Some 0x22
      else if e = 0x5C then Some 0x5C
      else if e = 0x2F then Some 0x2F
      else if e = 0x62 then Some 0x08
      else if e = 0x66 then Some 0x0C
      else if e = 0x6E then Some 0x0A
      else if e = 0x72 then Some 0x0D
      else if e = 0x74 then Some 0x09
      else None)"

definition hex4 :: "code_unit \<Rightarrow> code_unit \<Rightarrow> code_unit \<Rightarrow> code_unit \<Rightarrow> nat option" where
  "hex4 a b c d =
     (case (hex_value a, hex_value b, hex_value c, hex_value d) of
        (Some x, Some y, Some z, Some w) \<Rightarrow> Some (((x * 16 + y) * 16 + z) * 16 + w)
      | _ \<Rightarrow> None)"

definition cons_char :: "code_unit \<Rightarrow> (ustring \<times> ustring) option \<Rightarrow> (ustring \<times> ustring) option" where
  "cons_char c r = (case r of None \<Rightarrow> None | Some (s, rest) \<Rightarrow> Some (c # s, rest))"

text \<open>The characters of a string after its opening quote, up to the closing one.\<close>

fun parse_chars :: "ustring \<Rightarrow> (ustring \<times> ustring) option" where
  "parse_chars [] = None"
| "parse_chars (c # cs) =
     (if c = 0x22 then Some ([], cs)
      else if c = 0x5C then
        (case cs of
           [] \<Rightarrow> None
         | e # cs' \<Rightarrow>
             if e = 0x75 then
               (case cs' of
                  h1 # h2 # h3 # h4 # cs'' \<Rightarrow>
                    (case hex4 h1 h2 h3 h4 of
                       None \<Rightarrow> None
                     | Some n \<Rightarrow> cons_char n (parse_chars cs''))
                | _ \<Rightarrow> None)
             else
               (case unescape e of
                  None \<Rightarrow> None
                | Some ch \<Rightarrow> cons_char ch (parse_chars cs')))
      else if c < 0x20 then None
      else cons_char c (parse_chars cs))"

text \<open>
  A number: an optional minus sign, an integer part without a leading zero, an optional
  fraction and an optional exponent.
\<close>

definition parse_fraction :: "ustring \<Rightarrow> (ustring \<times> ustring) option" where
  "parse_fraction s =
     (if take 1 s = js ''.'' then
        (let fp = takeWhile is_digit (drop 1 s) in
         if fp = [] then None else Some (fp, dropWhile is_digit (drop 1 s)))
      else Some ([], s))"

definition parse_exponent :: "ustring \<Rightarrow> (int \<times> ustring) option" where
  "parse_exponent s =
     (if take 1 s = js ''e'' \<or> take 1 s = js ''E'' then
        (let s1 = drop 1 s;
             neg = (take 1 s1 = js ''-'');
             s2 = (if neg \<or> take 1 s1 = js ''+'' then drop 1 s1 else s1);
             ep = takeWhile is_digit s2
         in if ep = [] then None
            else Some (if neg then - int (digits_value ep) else int (digits_value ep),
                       dropWhile is_digit s2))
      else Some (0, s))"

definition parse_number :: "ustring \<Rightarrow> (json \<times> ustring) option" where
  "parse_number s =
     (let neg = (take 1 s = js ''-'');
          s1 = (if neg then drop 1 s else s);
          ip = takeWhile is_digit s1
      in if ip = [] \<or> (1 < length ip \<and> hd ip = 48) then None
         else
           (case parse_fraction (dropWhile is_digit s1) of
              None \<Rightarrow> None
            | Some (fp, s2) \<Rightarrow>
                (case parse_exponent s2 of
                   None \<Rightarrow> None
                 | Some (ex, rest) \<Rightarrow>
                     Some (JNumber (decimal neg (digits_value (ip @ fp)) (ex - int (length fp))),
                           rest))))"

fun parse_value :: "nat \<Rightarrow> ustring \<Rightarrow> (json \<times> ustring) option"
  and parse_elements :: "nat \<Rightarrow> ustring \<Rightarrow> (json list \<times> ustring) option"
  and parse_members :: "nat \<Rightarrow> ustring \<Rightarrow> ((ustring \<times> json) list \<times> ustring) option" where
  "parse_value 0 s = None"
| "parse_value (Suc n) [] = None"
| "parse_value (Suc n) (c # cs) =
     (if c = 0x6E then (if take 3 cs = js ''ull'' then Some (JNull, drop 3 cs) else None)
      else if c = 0x74 then (if take 3 cs = js ''rue'' then Some (JBool True, drop 3 cs) else None)
      else if c = 0x66 then (if take 4 cs = js ''alse'' then Some (JBool False, drop 4 cs) else None)
      else if c = 0x22 then
        (case parse_chars cs of None \<Rightarrow> None | Some (s, rest) \<Rightarrow> Some (JString s, rest))
      else if c = 0x5B then
        (if take 1 (skip_ws cs) = js '']'' then Some (JArray [], drop 1 (skip_ws cs))
         else (case parse_elements n (skip_ws cs) of
                 None \<Rightarrow> None
               | Some (vs, rest) \<Rightarrow> Some (JArray vs, rest)))
      else if c = 0x7B then
        (if take 1 (skip_ws cs) = js ''}'' then Some (JObject [], drop 1 (skip_ws cs))
         else (case parse_members n (skip_ws cs) of
                 None \<Rightarrow> None
               | Some (kvs, rest) \<Rightarrow> Some (JObject kvs, rest)))
      else parse_number (c # cs))"
| "parse_elements 0 s = None"
| "parse_elements (Suc n) s =
     (case parse_value n s of
        None \<Rightarrow> None
      | Some (v, rest) \<Rightarrow>
          (let r = skip_ws rest in
           if take 1 r = js '','' then
             (case parse_elements n (skip_ws (drop 1 r)) of
                None \<Rightarrow> None
              | Some (vs, rest') \<Rightarrow> Some (v # vs, rest'))
           else if take 1 r = js '']'' then Some ([v], drop 1 r)
           else None))"
| "parse_members 0 s = None"
| "parse_members (Suc n) s =
     (if take 1 s = [0x22] then
        (case parse_chars (drop 1 s) of
           None \<Rightarrow> None
         | Some (k, r1) \<Rightarrow>
             (if take 1 (skip_ws r1) = js '':'' then
                (case parse_value n (skip_ws (drop 1 (skip_ws r1))) of
                   None \<Rightarrow> None
                 | Some (v, r2) \<Rightarrow>
                     (let r = skip_ws r2 in
                      if take 1 r = js '','' then
                        (case parse_members n (skip_ws (drop 1 r)) of
                           None \<Rightarrow> None
                         | Some (kvs, rest') \<Rightarrow> Some ((k, v) # kvs, rest'))
                      else if take 1 r = js ''}'' then Some ([(k, v)], drop 1 r)
                      else None))
              else None))
      else None)"

definition JSON_parse :: "ustring \<Rightarrow> json option" where
  "JSON_parse s =
     (case parse_value (Suc (length s)) (skip_ws s) of
        None \<Rightarrow> None
      | Some (v, rest) \<Rightarrow> if skip_ws rest = [] then Some v else None)"

text \<open>
  An object literal whose property value is \<open>undefined\<close>: \<open>JSON.stringify\<close> leaves the
  property out, so only the defined properties reach the serialiser.
\<close>

definition object_literal :: "(ustring \<times> json option) list \<Rightarrow> json" where
  "object_literal props =
     JObject (concat (map (\<lambda>(k, v). case v of None \<Rightarrow> [] | Some j \<Rightarrow> [(k, j)]) props))"

subsection \<open>Template literals\<close>

text \<open>The ustring a value becomes inside a template literal \<open>`${v}`\<close>.\<close>

fun ToString :: "json \<Rightarrow> ustring" where
  "ToString JNull = js ''null''"
| "ToString (JBool b) = (if b then js ''true'' else js ''false'')"
| "ToString (JNumber n) = Number_toString n"
| "ToString (JString s) = s"
| "ToString (JArray vs) = join (js '','') (map (\<lambda>v. if v = JNull then [] else ToString v) vs)"
| "ToString (JObject kvs) = js ''[object Object]''"

definition template :: "json option \<Rightarrow> ustring" where
  "template v = (case v of None \<Rightarrow> js ''undefined'' | Some j \<Rightarrow> ToString j)"

section \<open>The remote API client (ilevel-client.ts)\<close>

text \<open>
  An optional property of a configuration object is absent, present with the value
  \<open>undefined\<close>, or present with a value: the object spread of the constructor tells the
  first two apart.
\<close>

datatype 'a optional = Absent | Undefined | Present 'a

record ILevelConfig =
  baseUrl :: ustring
  username :: ustring
  password :: ustring
  isSandbox :: "bool optional"
  apiVersion :: "ustring optional"

text \<open>
  Objects live in a heap of configuration objects, addressed by position; a reference held
  by running code always points into the heap. Allocation appends.
\<close>

type_synonym addr = nat
type_synonym heap = "ILevelConfig list"

definition alloc :: "heap \<Rightarrow> ILevelConfig \<Rightarrow> heap \<times> addr" where
  "alloc h obj = (h @ [obj], length h)"

subsection \<open>The HTTP session\<close>

record AxiosRequestConfig =
  baseURL :: ustring
  auth :: "ustring \<times> ustring"
  headers :: "(ustring \<times> ustring) list"
  timeout :: nat
  "method" :: "json option"
  url :: "json option"
  params :: "json option"
  data :: "json option"

datatype AxiosResponse = AxiosResponse (status: int) (response_data: json)

datatype AxiosError =
  AxiosError (axios_message: ustring) (response: "AxiosResponse option") (request: bool)

datatype ErrorCode = InvalidRequest | MethodNotFound | InternalError

datatype McpError = McpError (code: ErrorCode) (reason: ustring)

datatype thrown = Axios AxiosError | Mcp McpError | TypeError ustring

text \<open>
  What the network does with one request: it answers with a status and a body, it never
  answers (connection failure, or the 30 second timeout), or the request cannot be sent.
\<close>

datatype outcome = Replied int json | NoReply ustring | NotSent ustring

type_synonym network = "AxiosRequestConfig \<Rightarrow> outcome"

text \<open>
  An asynchronous computation: the requests it handed to the network, in order, and the
  value it resolves to (\<open>Inr\<close>) or the error it rejects with (\<open>Inl\<close>).
\<close>

type_synonym 'a io = "AxiosRequestConfig list \<times> (thrown + 'a)"

definition return_io :: "'a \<Rightarrow> 'a io" where
  "return_io x = ([], Inr x)"

definition throw_io :: "thrown \<Rightarrow> 'a io" where
  "throw_io e = ([], Inl e)"

definition bind_io :: "'a io \<Rightarrow> ('a \<Rightarrow> 'b io) \<Rightarrow> 'b io" where
  "bind_io m f =
     (case m of
        (tr, Inl e) \<Rightarrow> (tr, Inl e)
      | (tr, Inr x) \<Rightarrow> (case f x of (tr', r) \<Rightarrow> (tr @ tr', r)))"

text \<open>
  One request of the session. The session accepts a status from 200 to 299 and rejects
  every other one with an error that carries the response. The two interceptors of the
  client only write a line to the console and pass the request, the response or the error
  on unchanged; the console is not part of the model.
\<close>

definition axios_request :: "network \<Rightarrow> AxiosRequestConfig \<Rightarrow> AxiosResponse io" where
  "axios_request net req =
     ([req],
      case net req of
        Replied st body \<Rightarrow>
          if 200 \<le> st \<and> st < 300 then Inr (AxiosResponse st body)
          else Inl (Axios (AxiosError (js ''Request failed with status code '' @ Number_toString (Number_of_int st))
                             (Some (AxiosResponse st body)) True))
      | NoReply msg \<Rightarrow> Inl (Axios (AxiosError msg None True))
      | NotSent msg \<Rightarrow> Inl (Axios (AxiosError msg None False)))"

text \<open>
  The helpers \<open>get\<close>, \<open>post\<close> and \<open>delete\<close> of the session: the verb is recorded in upper
  case, as it goes on the wire.
\<close>

definition axios_get :: "network \<Rightarrow> AxiosRequestConfig \<Rightarrow> ustring \<Rightarrow> json option \<Rightarrow> AxiosResponse io" where
  "axios_get net inst path ps =
     axios_request net (inst\<lparr>method := Some (JString (js ''GET'')), url := Some (JString path), params := ps\<rparr>)"

definition axios_post :: "network \<Rightarrow> AxiosRequestConfig \<Rightarrow> ustring \<Rightarrow> json option \<Rightarrow> AxiosResponse io" where
  "axios_post net inst path body =
     axios_request net (inst\<lparr>method := Some (JString (js ''POST'')), url := Some (JString path), data := body\<rparr>)"

definition axios_delete :: "network \<Rightarrow> AxiosRequestConfig \<Rightarrow> ustring \<Rightarrow> AxiosResponse io" where
  "axios_delete net inst path =
     axios_request net (inst\<lparr>method := Some (JString (js ''DELETE'')), url := Some (JString path)\<rparr>)"

subsection \<open>The client class\<close>

record ILevelClient =
  client :: AxiosRequestConfig
  this_config :: addr

definition optional_template :: "ustring optional \<Rightarrow> ustring" where
  "optional_template p = (case p of Present s \<Rightarrow> s | _ \<Rightarrow> js ''undefined'')"

text \<open>
  The constructor: \<open>this.config = { apiVersion: 'v1', ...config }\<close> is a new object, and
  the session's defaults are computed from it.
\<close>

definition ILevelClient_constructor :: "heap \<Rightarrow> addr \<Rightarrow> heap \<times> ILevelClient" where
  "ILevelClient_constructor h config_ref =
     (let cfg = h ! config_ref;
          (h', this_ref) = alloc h
             \<lparr>baseUrl = baseUrl cfg, username = username cfg, password = password cfg,
              isSandbox = isSandbox cfg,
              apiVersion = (case apiVersion cfg of Absent \<Rightarrow> Present (js ''v1'') | p \<Rightarrow> p)\<rparr>;
          this_cfg = h' ! this_ref
      in (h',
          \<lparr>client =
             \<lparr>baseURL = baseUrl this_cfg @ js ''/api/'' @ optional_template (apiVersion this_cfg),
              auth = (username this_cfg, password this_cfg),
              headers = [(js ''Content-Type'', js ''application/json''), (js ''Accept'', js ''application/json'')],
              timeout = 30000,
              method = None, url = None, params = None, data = None\<rparr>,
           this_config = this_ref\<rparr>))"

definition testConnection :: "ILevelClient \<Rightarrow> network \<Rightarrow> bool io" where
  "testConnection this net =
     (case axios_get net (client this) (js ''/users'') None of
        (tr, Inr _) \<Rightarrow> (tr, Inr True)
      | (tr, Inl _) \<Rightarrow> (tr, Inr False))"

definition getUsers :: "ILevelClient \<Rightarrow> network \<Rightarrow> json option \<Rightarrow> json io" where
  "getUsers this net ps =
     bind_io (axios_get net (client this) (js ''/users'') ps) (\<lambda>r. return_io (response_data r))"

definition getUser :: "ILevelClient \<Rightarrow> network \<Rightarrow> json option \<Rightarrow> json io" where
  "getUser this net userId =
     bind_io (axios_get net (client this) (js ''/users/'' @ template userId) None)
       (\<lambda>r. return_io (response_data r))"

definition getClients :: "ILevelClient \<Rightarrow> network \<Rightarrow> json option \<Rightarrow> json io" where
  "getClients this net ps =
     bind_io (axios_get net (client this) (js ''/clients'') ps) (\<lambda>r. return_io (response_data r))"

definition getClient :: "ILevelClient \<Rightarrow> network \<Rightarrow> json option \<Rightarrow> json io" where
  "getClient this net clientId =
     bind_io (axios_get net (client this) (js ''/clients/'' @ template clientId) None)
       (\<lambda>r. return_io (response_data r))"

definition getPortfolios :: "ILevelClient \<Rightarrow> network \<Rightarrow> json option \<Rightarrow> json io" where
  "getPortfolios this net ps =
     bind_io (axios_get net (client this) (js ''/webapp'') ps) (\<lambda>r. return_io (response_data r))"

definition getAssets :: "ILevelClient \<Rightarrow> network \<Rightarrow> json option \<Rightarrow> json io" where
  "getAssets this net ps =
     bind_io (axios_get net (client this) (js ''/assets'') ps) (\<lambda>r. return_io (response_data r))"

definition getFunds :: "ILevelClient \<Rightarrow> network \<Rightarrow> json option \<Rightarrow> json io" where
  "getFunds this net ps =
     bind_io (axios_get net (client this) (js ''/funds'') ps) (\<lambda>r. return_io (response_data r))"

definition getInvestments :: "ILevelClient \<Rightarrow> network \<Rightarrow> json option \<Rightarrow> json io" where
  "getInvestments this net ps =
     bind_io (axios_get net (client this) (js ''/investments'') ps) (\<lambda>r. return_io (response_data r))"

definition getDocuments :: "ILevelClient \<Rightarrow> network \<Rightarrow> json option \<Rightarrow> json io" where
  "getDocuments this net ps =
     bind_io (axios_get net (client this) (js ''/documents-api'') ps) (\<lambda>r. return_io (response_data r))"

definition getDocument :: "ILevelClient \<Rightarrow> network \<Rightarrow> json option \<Rightarrow> json io" where
  "getDocument this net documentId =
     bind_io (axios_get net (client this) (js ''/documents-api/'' @ template documentId) None)
       (\<lambda>r. return_io (response_data r))"

definition getValuations :: "ILevelClient \<Rightarrow> network \<Rightarrow> json option \<Rightarrow> json io" where
  "getValuations this net ps =
     bind_io (axios_get net (client this) (js ''/valuation-api'') ps) (\<lambda>r. return_io (response_data r))"

definition createValuation :: "ILevelClient \<Rightarrow> network \<Rightarrow> json option \<Rightarrow> json io" where
  "createValuation this net body =
     bind_io (axios_post net (client this) (js ''/valuation-api'') body) (\<lambda>r. return_io (response_data r))"

definition queryData :: "ILevelClient \<Rightarrow> network \<Rightarrow> json option \<Rightarrow> json io" where
  "queryData this net query =
     bind_io (axios_post net (client this) (js ''/data-retrieval'') query) (\<lambda>r. return_io (response_data r))"

definition getWebhooks :: "ILevelClient \<Rightarrow> network \<Rightarrow> json io" where
  "getWebhooks this net =
     bind_io (axios_get net (client this) (js ''/webhooks'') None) (\<lambda>r. return_io (response_data r))"

definition createWebhook :: "ILevelClient \<Rightarrow> network \<Rightarrow> json option \<Rightarrow> json io" where
  "createWebhook this net body =
     bind_io (axios_post net (client this) (js ''/webhooks'') body) (\<lambda>r. return_io (response_data r))"

definition deleteWebhook :: "ILevelClient \<Rightarrow> network \<Rightarrow> json option \<Rightarrow> json io" where
  "deleteWebhook this net webhookId =
     bind_io (axios_delete net (client this) (js ''/webhooks/'' @ template webhookId))
       (\<lambda>r. return_io (response_data r))"

definition getCalculations :: "ILevelClient \<Rightarrow> network \<Rightarrow> json option \<Rightarrow> json io" where
  "getCalculations this net ps =
     bind_io (axios_get net (client this) (js ''/calcs-api'') ps) (\<lambda>r. return_io (response_data r))"

text \<open>The generic request hands the caller's verb, path and body to the session as they are.\<close>

definition request_generic :: "ILevelClient \<Rightarrow> network \<Rightarrow> json option \<Rightarrow> json option \<Rightarrow> json option \<Rightarrow> json io" where
  "request_generic this net verb endpoint body =
     bind_io (axios_request net ((client this)\<lparr>method := verb, url := endpoint, data := body\<rparr>))
       (\<lambda>r. return_io (response_data r))"

section \<open>The MCP server (index.ts)\<close>

subsection \<open>Errors of the plugin protocol\<close>

text \<open>
  The SDK's \<open>McpError(code, message)\<close> keeps the code and puts the code's number in front of
  the message it is constructed with: \<open>error.message\<close> reads \<open>MCP error <number>: <message>\<close>.
\<close>

definition ErrorCode_number :: "ErrorCode \<Rightarrow> int" where
  "ErrorCode_number c =
     (case c of InvalidRequest \<Rightarrow> - 32600 | MethodNotFound \<Rightarrow> - 32601 | InternalError \<Rightarrow> - 32603)"

definition McpError_message :: "McpError \<Rightarrow> ustring" where
  "McpError_message e = js ''MCP error '' @ Number_toString (Number_of_int (ErrorCode_number (code e))) @ js '': '' @ reason e"

text \<open>The properties \<open>response\<close>, \<open>request\<close> and \<open>message\<close> of a caught value.\<close>

definition error_response :: "thrown \<Rightarrow> AxiosResponse option" where
  "error_response e = (case e of Axios a \<Rightarrow> response a | _ \<Rightarrow> None)"

definition error_request :: "thrown \<Rightarrow> bool" where
  "error_request e = (case e of Axios a \<Rightarrow> request a | _ \<Rightarrow> False)"

definition error_message :: "thrown \<Rightarrow> ustring" where
  "error_message e =
     (case e of Axios a \<Rightarrow> axios_message a | Mcp m \<Rightarrow> McpError_message m | TypeError msg \<Rightarrow> msg)"

subsection \<open>Helper functions\<close>

record TextContent =
  type :: ustring
  "text" :: ustring

record CallToolResult =
  content :: "TextContent list"

definition formatResponse :: "json \<Rightarrow> CallToolResult" where
  "formatResponse d =
     \<lparr>content = [\<lparr>type = js ''text'',
                   text = (case d of JString s \<Rightarrow> s | _ \<Rightarrow> JSON_stringify d 2)\<rparr>]\<rparr>"

text \<open>\<open>handleError\<close> never returns: the value here is the error it throws.\<close>

definition handleError :: "thrown \<Rightarrow> McpError" where
  "handleError e =
     (case error_response e of
        Some r \<Rightarrow>
          McpError InternalError
            (js ''iLevel API error: '' @ Number_toString (Number_of_int (status r)) @ js '' - ''
               @ JSON_stringify (response_data r) 0)
      | None \<Rightarrow>
          if error_request e then McpError InternalError (js ''No response received from iLevel API'')
          else McpError InternalError (js ''Request failed: '' @ error_message e))"

subsection \<open>The tool catalog\<close>

record Tool =
  name :: ustring
  description :: ustring
  inputSchema :: json

definition schema_property :: "ustring \<Rightarrow> ustring \<Rightarrow> ustring \<Rightarrow> ustring \<times> json" where
  "schema_property p ty d = (p, JObject [(js ''type'', JString ty), (js ''description'', JString d)])"

definition object_schema :: "(ustring \<times> json) list \<Rightarrow> ustring list \<Rightarrow> json" where
  "object_schema props req =
     JObject ([(js ''type'', JString (js ''object'')), (js ''properties'', JObject props)]
              @ (if req = [] then [] else [(js ''required'', JArray (map JString req))]))"

definition filters_property :: "ustring \<times> json" where
  "filters_property = schema_property (js ''filters'') (js ''object'') (js ''Optional filters (JSON object)'')"

definition paging_properties :: "(ustring \<times> json) list" where
  "paging_properties =
     [schema_property (js ''page'') (js ''number'') (js ''Page number for pagination''),
      schema_property (js ''pageSize'') (js ''number'') (js ''Number of records per page''),
      filters_property]"

definition tools :: "Tool list" where
  "tools =
     [\<lparr>name = js ''test_connection'', description = js ''Test connection to the iLevel API'',
       inputSchema = object_schema [] []\<rparr>,
      \<lparr>name = js ''get_users'', description = js ''Get a list of users from iLevel'',
       inputSchema = object_schema paging_properties []\<rparr>,
      \<lparr>name = js ''get_user'', description = js ''Get details of a specific user by ID'',
       inputSchema = object_schema [schema_property (js ''userId'') (js ''string'') (js ''User ID'')] [js ''userId'']\<rparr>,
      \<lparr>name = js ''get_clients'', description = js ''Get a list of clients from iLevel'',
       inputSchema = object_schema paging_properties []\<rparr>,
      \<lparr>name = js ''get_client'', description = js ''Get details of a specific client by ID'',
       inputSchema = object_schema [schema_property (js ''clientId'') (js ''string'') (js ''Client ID'')] [js ''clientId'']\<rparr>,
      \<lparr>name = js ''get_portfolios'', description = js ''Get portfolio data from iLevel'',
       inputSchema = object_schema paging_properties []\<rparr>,
      \<lparr>name = js ''get_assets'', description = js ''Get assets from iLevel'',
       inputSchema = object_schema [filters_property] []\<rparr>,
      \<lparr>name = js ''get_funds'', description = js ''Get funds from iLevel'',
       inputSchema = object_schema [filters_property] []\<rparr>,
      \<lparr>name = js ''get_investments'', description = js ''Get investments from iLevel'',
       inputSchema = object_schema [filters_property] []\<rparr>,
      \<lparr>name = js ''get_documents'', description = js ''Get documents from iLevel'',
       inputSchema = object_schema paging_properties []\<rparr>,
      \<lparr>name = js ''get_document'', description = js ''Get a specific document by ID'',
       inputSchema =
         object_schema [schema_property (js ''documentId'') (js ''string'') (js ''Document ID'')] [js ''documentId'']\<rparr>,
      \<lparr>name = js ''get_valuations'', description = js ''Get valuations from iLevel'',
       inputSchema = object_schema [filters_property] []\<rparr>,
      \<lparr>name = js ''create_valuation'', description = js ''Create or update a valuation in iLevel'',
       inputSchema =
         object_schema [schema_property (js ''data'') (js ''object'') (js ''Valuation data (JSON object)'')] [js ''data'']\<rparr>,
      \<lparr>name = js ''get_calculations'', description = js ''Get calculations from iLevel'',
       inputSchema = object_schema [filters_property] []\<rparr>,
      \<lparr>name = js ''query_data'',
       description = js ''Query data from iLevel using the data retrieval API'',
       inputSchema =
         object_schema [schema_property (js ''query'') (js ''object'') (js ''Query parameters (JSON object)'')] [js ''query'']\<rparr>,
      \<lparr>name = js ''get_webhooks'', description = js ''Get configured webhooks from iLevel'',
       inputSchema = object_schema [] []\<rparr>,
      \<lparr>name = js ''create_webhook'', description = js ''Create a new webhook in iLevel'',
       inputSchema =
         object_schema
           [schema_property (js ''url'') (js ''string'') (js ''Webhook URL''),
            (js ''events'',
             JObject [(js ''type'', JString (js ''array'')),
                      (js ''items'', JObject [(js ''type'', JString (js ''string''))]),
                      (js ''description'', JString (js ''Array of event types to subscribe to''))]),
            schema_property (js ''description'') (js ''string'') (js ''Optional webhook description'')]
           [js ''url'', js ''events'']\<rparr>,
      \<lparr>name = js ''delete_webhook'', description = js ''Delete a webhook from iLevel'',
       inputSchema =
         object_schema [schema_property (js ''webhookId'') (js ''string'') (js ''Webhook ID to delete'')]
           [js ''webhookId'']\<rparr>,
      \<lparr>name = js ''custom_request'',
       description =
         js ''Make a custom request to any iLevel API endpoint (useful for endpoints not yet implemented)'',
       inputSchema =
         object_schema
           [(js ''method'',
             JObject [(js ''type'', JString (js ''string'')),
                      (js ''enum'', JArray [JString (js ''GET''), JString (js ''POST''), JString (js ''PUT''),
                                         JString (js ''DELETE'')]),
                      (js ''description'', JString (js ''HTTP method''))]),
            schema_property (js ''endpoint'') (js ''string'')
              (js ''API endpoint path (e.g., /users, /documents-api)''),
            schema_property (js ''data'') (js ''object'') (js ''Optional request body data (JSON object)'')]
           [js ''method'', js ''endpoint'']\<rparr>]"

definition list_tools :: "Tool list" where
  "list_tools = tools"

subsection \<open>Tool dispatch\<close>

record Server =
  heap :: heap
  config :: addr
  iLevelClient :: ILevelClient

text \<open>
  The argument bag of a call is an object or \<open>undefined\<close>. Destructuring \<open>undefined\<close>
  throws a \<open>TypeError\<close> (the wording is the engine's); a property that is not there reads
  as \<open>undefined\<close>.
\<close>

type_synonym arguments = "(ustring \<times> json) list option"

definition destructure :: "arguments \<Rightarrow> ustring \<Rightarrow> (ustring \<Rightarrow> json option) io" where
  "destructure args p =
     (case args of
        None \<Rightarrow>
          throw_io (TypeError (js ''Cannot destructure property '' @ [0x27] @ p @ [0x27]
                               @ js '' of '' @ [0x27] @ js ''args'' @ [0x27]
                               @ js '' as it is undefined.''))
      | Some obj \<Rightarrow> return_io (map_of obj))"

definition optional_chain :: "arguments \<Rightarrow> ustring \<Rightarrow> json option" where
  "optional_chain args p = (case args of None \<Rightarrow> None | Some obj \<Rightarrow> map_of obj p)"

definition respond :: "json io \<Rightarrow> CallToolResult io" where
  "respond m = bind_io m (\<lambda>d. return_io (formatResponse d))"

text \<open>The body of the \<open>try\<close> block: the \<open>switch\<close> over the tool name.\<close>

definition dispatch :: "Server \<Rightarrow> network \<Rightarrow> ustring \<Rightarrow> arguments \<Rightarrow> CallToolResult io" where
  "dispatch srv net nm args =
     (let c = iLevelClient srv in
      if nm = js ''test_connection'' then
        bind_io (testConnection c net) (\<lambda>isConnected.
          return_io (formatResponse (JObject
            [(js ''connected'', JBool isConnected),
             (js ''message'', JString (if isConnected then js ''Successfully connected to iLevel API''
                                    else js ''Failed to connect to iLevel API''))])))
      else if nm = js ''get_users'' then respond (getUsers c net (map_option JObject args))
      else if nm = js ''get_user'' then
        bind_io (destructure args (js ''userId'')) (\<lambda>a. respond (getUser c net (a (js ''userId''))))
      else if nm = js ''get_clients'' then respond (getClients c net (map_option JObject args))
      else if nm = js ''get_client'' then
        bind_io (destructure args (js ''clientId'')) (\<lambda>a. respond (getClient c net (a (js ''clientId''))))
      else if nm = js ''get_portfolios'' then respond (getPortfolios c net (map_option JObject args))
      else if nm = js ''get_assets'' then respond (getAssets c net (optional_chain args (js ''filters'')))
      else if nm = js ''get_funds'' then respond (getFunds c net (optional_chain args (js ''filters'')))
      else if nm = js ''get_investments'' then
        respond (getInvestments c net (optional_chain args (js ''filters'')))
      else if nm = js ''get_documents'' then respond (getDocuments c net (map_option JObject args))
      else if nm = js ''get_document'' then
        bind_io (destructure args (js ''documentId'')) (\<lambda>a. respond (getDocument c net (a (js ''documentId''))))
      else if nm = js ''get_valuations'' then
        respond (getValuations c net (optional_chain args (js ''filters'')))
      else if nm = js ''create_valuation'' then
        bind_io (destructure args (js ''data'')) (\<lambda>a. respond (createValuation c net (a (js ''data''))))
      else if nm = js ''get_calculations'' then
        respond (getCalculations c net (optional_chain args (js ''filters'')))
      else if nm = js ''query_data'' then
        bind_io (destructure args (js ''query'')) (\<lambda>a. respond (queryData c net (a (js ''query''))))
      else if nm = js ''get_webhooks'' then respond (getWebhooks c net)
      else if nm = js ''create_webhook'' then respond (createWebhook c net (map_option JObject args))
      else if nm = js ''delete_webhook'' then
        bind_io (destructure args (js ''webhookId'')) (\<lambda>a. respond (deleteWebhook c net (a (js ''webhookId''))))
      else if nm = js ''custom_request'' then
        bind_io (destructure args (js ''method'')) (\<lambda>a.
          respond (request_generic c net (a (js ''method'')) (a (js ''endpoint'')) (a (js ''data''))))
      else throw_io (Mcp (McpError MethodNotFound (js ''Unknown tool: '' @ nm))))"

text \<open>The handler: whatever the \<open>try\<close> block throws goes through \<open>handleError\<close>.\<close>

definition call_tool ::
  "Server \<Rightarrow> network \<Rightarrow> ustring \<Rightarrow> arguments \<Rightarrow> AxiosRequestConfig list \<times> (McpError + CallToolResult)" where
  "call_tool srv net nm args =
     (case dispatch srv net nm args of
        (tr, Inr result) \<Rightarrow> (tr, Inr result)
      | (tr, Inl e) \<Rightarrow> (tr, Inl (handleError e)))"

subsection \<open>Resources\<close>

record ResourceContents =
  uri :: ustring
  mimeType :: ustring
  contents_text :: ustring

record ReadResourceResult =
  contents :: "ResourceContents list"

definition read_resource ::
  "Server \<Rightarrow> ustring \<Rightarrow> AxiosRequestConfig list \<times> (McpError + ReadResourceResult)" where
  "read_resource srv u =
     (let cfg = heap srv ! config srv in
      if u = js ''ilevel://config'' then
        ([], Inr \<lparr>contents =
           [\<lparr>uri = u, mimeType = js ''application/json'',
             contents_text =
               JSON_stringify
                 (object_literal
                    [(js ''baseUrl'', Some (JString (baseUrl cfg))),
                     (js ''username'', Some (JString (username cfg))),
                     (js ''isSandbox'', (case isSandbox cfg of Present b \<Rightarrow> Some (JBool b) | _ \<Rightarrow> None)),
                     (js ''apiVersion'',
                      Some (JString (case apiVersion cfg of
                                       Present v \<Rightarrow> if v = [] then js ''v1'' else v
                                     | _ \<Rightarrow> js ''v1'')))])
                 2\<rparr>]\<rparr>)
      else ([], Inl (McpError InvalidRequest (js ''Unknown resource: '' @ u))))"

subsection \<open>Process start\<close>

text \<open>
  The environment is \<open>process.env\<close>. A required variable that is unset or empty is
  missing. \<open>main\<close> probes the connection once and then serves.
\<close>

type_synonym env = "ustring \<Rightarrow> ustring option"

datatype process = Exited nat | Running Server

definition main :: "Server \<Rightarrow> network \<Rightarrow> AxiosRequestConfig list \<times> process" where
  "main srv net =
     (case testConnection (iLevelClient srv) net of
        (tr, Inr isConnected) \<Rightarrow> (tr, Running srv)
      | (tr, Inl _) \<Rightarrow> (tr, Exited 1))"

definition startup :: "env \<Rightarrow> network \<Rightarrow> AxiosRequestConfig list \<times> process" where
  "startup environment net =
     (let ILEVEL_SANDBOX = (environment (js ''ILEVEL_SANDBOX'') = Some (js ''true'')) in
      case (environment (js ''ILEVEL_BASE_URL''), environment (js ''ILEVEL_USERNAME''),
            environment (js ''ILEVEL_PASSWORD'')) of
        (Some ILEVEL_BASE_URL, Some ILEVEL_USERNAME, Some ILEVEL_PASSWORD) \<Rightarrow>
          if ILEVEL_BASE_URL = [] \<or> ILEVEL_USERNAME = [] \<or> ILEVEL_PASSWORD = []
          then ([], Exited 1)
          else
            (let (h0, config_ref) = alloc []
                   \<lparr>baseUrl = ILEVEL_BASE_URL, username = ILEVEL_USERNAME,
                    password = ILEVEL_PASSWORD, isSandbox = Present ILEVEL_SANDBOX,
                    apiVersion = Absent\<rparr>;
                 (h1, c) = ILevelClient_constructor h0 config_ref
             in main \<lparr>heap = h1, config = config_ref, iLevelClient = c\<rparr> net)
      | _ \<Rightarrow> ([], Exited 1))"

section \<open>Auxiliary definitions\<close>

subsection \<open>The shape of a tool call\<close>

text \<open>
  Every client method other than the probe hands one request to the network and forwards
  what comes back: \<open>fetch\<close> is that outcome after \<open>formatResponse\<close>, and \<open>tool_shape\<close> says
  that a dispatch either threw before any request or is such a forwarded request built on
  the session's defaults.
\<close>

definition fetch :: "network \<Rightarrow> AxiosRequestConfig \<Rightarrow> CallToolResult io" where
  "fetch net req =
     ([req], case net req of
        Replied st body \<Rightarrow>
          if 200 \<le> st \<and> st < 300 then Inr (formatResponse body)
          else Inl (Axios (AxiosError (js ''Request failed with status code '' @ Number_toString (Number_of_int st))
                             (Some (AxiosResponse st body)) True))
      | NoReply msg \<Rightarrow> Inl (Axios (AxiosError msg None True))
      | NotSent msg \<Rightarrow> Inl (Axios (AxiosError msg None False)))"

definition tool_shape :: "Server \<Rightarrow> network \<Rightarrow> CallToolResult io \<Rightarrow> bool" where
  "tool_shape srv net x \<longleftrightarrow>
     (\<exists>msg. x = ([], Inl (TypeError msg)))
     \<or> (\<exists>m. x = ([], Inl (Mcp m)))
     \<or> (\<exists>m u p d. x = fetch net ((client (iLevelClient srv))\<lparr>method := m, url := u, params := p, data := d\<rparr>))"

text \<open>The version segment of the base path, by the state of \<open>apiVersion\<close> in the caller's object.\<close>

definition version_segment :: "ustring optional \<Rightarrow> ustring" where
  "version_segment p = (case p of Absent \<Rightarrow> js ''v1'' | Undefined \<Rightarrow> js ''undefined'' | Present v \<Rightarrow> v)"

subsection \<open>Serialised text\<close>

text \<open>
  Names for the pieces of a serialised value: what may follow a number or a run of
  digits, the first code unit of a value, the fuel a value needs, and the separators and
  members that \<open>SerializeJSONProperty\<close> puts between the brackets.
\<close>

definition number_end :: "ustring \<Rightarrow> bool" where
  "number_end rest \<longleftrightarrow>
     rest = [] \<or> (\<not> is_digit (hd rest) \<and> hd rest \<noteq> 0x2E \<and> hd rest \<noteq> 0x65 \<and> hd rest \<noteq> 0x45)"

definition digit_end :: "ustring \<Rightarrow> bool" where
  "digit_end rest \<longleftrightarrow> rest = [] \<or> \<not> is_digit (hd rest)"

definition value_start :: "code_unit \<Rightarrow> bool" where
  "value_start c \<longleftrightarrow> \<not> is_ws c \<and> c \<noteq> 0x5D \<and> c \<noteq> 0x7D \<and> c \<noteq> 0x2C"

fun fuel_of :: "json \<Rightarrow> nat" where
  "fuel_of (JArray vs) = Suc (sum_list (map (\<lambda>v. Suc (fuel_of v)) vs))"
| "fuel_of (JObject kvs) = Suc (sum_list (map (\<lambda>(k, v). Suc (fuel_of v)) kvs))"
| "fuel_of v = 1"

definition open_sep :: "ustring \<Rightarrow> ustring \<Rightarrow> ustring" where
  "open_sep gap indent = (if gap = [] then [] else 0x0A # indent @ gap)"

definition close_sep :: "ustring \<Rightarrow> ustring \<Rightarrow> ustring" where
  "close_sep gap indent = (if gap = [] then [] else 0x0A # indent)"

definition colon_sep :: "ustring \<Rightarrow> ustring" where
  "colon_sep gap = (if gap = [] then [] else [0x20])"

definition member_text :: "ustring \<Rightarrow> ustring \<Rightarrow> ustring \<times> json \<Rightarrow> ustring" where
  "member_text gap indent kv =
     QuoteJSONString (fst kv) @ [0x3A] @ colon_sep gap @ SerializeJSONProperty gap indent (snd kv)"

text \<open>
  What reading a serialised value back gives: \<open>JSON.stringify\<close> prints both zeros as \<open>0\<close>
  and a number that is not finite as \<open>null\<close>, so a negative zero comes back as zero and an
  infinity as \<open>null\<close>; everything else comes back as it was. \<open>plain\<close> says that a value
  holds neither.
\<close>

fun reparsed :: "json \<Rightarrow> json" where
  "reparsed (JNumber x) =
     (case x of Zero neg \<Rightarrow> JNumber (Zero False) | Infinity neg \<Rightarrow> JNull | _ \<Rightarrow> JNumber x)"
| "reparsed (JArray vs) = JArray (map reparsed vs)"
| "reparsed (JObject kvs) = JObject (map (\<lambda>(k, v). (k, reparsed v)) kvs)"
| "reparsed v = v"

fun plain :: "json \<Rightarrow> bool" where
  "plain (JNumber x) = (case x of Zero neg \<Rightarrow> \<not> neg | Infinity neg \<Rightarrow> False | _ \<Rightarrow> True)"
| "plain (JArray vs) = list_all plain vs"
| "plain (JObject kvs) = list_all (\<lambda>(k, v). plain v) kvs"
| "plain v = True"

subsection \<open>A concrete deployment\<close>

text \<open>
  An environment with all four variables, the configuration object and the server it
  starts, and six networks: one that never answers, one that answers every request with
  status 500 and a body, one that answers every request with status 500 and the string
  of the three characters \<open>a\<close>, double quote, \<open>b\<close>, one that answers every request with the user record of the scenario, one that
  answers every request with the string \<open>123\<close>, and one that answers every request with
  a negative zero.
\<close>

definition example_env :: env where
  "example_env =
     [js ''ILEVEL_BASE_URL'' \<mapsto> js ''https://sandapi.ilevelsolutions.com'',
      js ''ILEVEL_USERNAME'' \<mapsto> js ''analyst'',
      js ''ILEVEL_PASSWORD'' \<mapsto> js ''secret'',
      js ''ILEVEL_SANDBOX'' \<mapsto> js ''true'']"

definition example_config :: ILevelConfig where
  "example_config =
     \<lparr>baseUrl = js ''https://sandapi.ilevelsolutions.com'', username = js ''analyst'',
      password = js ''secret'', isSandbox = Present True, apiVersion = Absent\<rparr>"

definition example_server :: Server where
  "example_server =
     \<lparr>heap = fst (ILevelClient_constructor [example_config] 0), config = 0,
      iLevelClient = snd (ILevelClient_constructor [example_config] 0)\<rparr>"

definition silent_network :: network where
  "silent_network req = NoReply (js ''timeout of 30000ms exceeded'')"

definition failing_network :: network where
  "failing_network req = Replied 500 (JString (js ''Service Unavailable''))"

definition quote_network :: network where
  "quote_network req = Replied 500 (JString [0x61, 0x22, 0x62])"

definition acme :: json where
  "acme = JObject [(js ''id'', JString (js ''123'')), (js ''name'', JString (js ''Acme''))]"

definition acme_text :: ustring where
  "acme_text =
     js ''{'' @ [0x0A]
     @ js ''  '' @ [0x22] @ js ''id'' @ [0x22] @ js '': '' @ [0x22] @ js ''123'' @ [0x22] @ js '','' @ [0x0A]
     @ js ''  '' @ [0x22] @ js ''name'' @ [0x22] @ js '': '' @ [0x22] @ js ''Acme'' @ [0x22] @ [0x0A]
     @ js ''}''"

definition example_config_text :: ustring where
  "example_config_text =
     js ''{'' @ [0x0A]
     @ js ''  '' @ [0x22] @ js ''baseUrl'' @ [0x22] @ js '': '' @ [0x22]
       @ js ''https://sandapi.ilevelsolutions.com'' @ [0x22] @ js '','' @ [0x0A]
     @ js ''  '' @ [0x22] @ js ''username'' @ [0x22] @ js '': '' @ [0x22] @ js ''analyst''
       @ [0x22] @ js '','' @ [0x0A]
     @ js ''  '' @ [0x22] @ js ''isSandbox'' @ [0x22] @ js '': true,'' @ [0x0A]
     @ js ''  '' @ [0x22] @ js ''apiVersion'' @ [0x22] @ js '': '' @ [0x22] @ js ''v1''
       @ [0x22] @ [0x0A]
     @ js ''}''"

definition acme_network :: network where
  "acme_network req = Replied 200 acme"



section \<open>Basic facts about the model\<close>

lemma js_eq_iff [simp]: "js a = js b \<longleftrightarrow> a = b"
  by (simp add: js_def inj_map_eq_map inj_on_def)

lemma js_Nil_iff [simp]: "js s = [] \<longleftrightarrow> s = []" "[] = js s \<longleftrightarrow> s = []"
  by (auto simp: js_def)

lemma js_append [simp]: "js a @ js b = js (a @ b)" "js a @ js b @ rest = js (a @ b) @ rest"
  by (simp_all add: js_def)

lemma js_simps: "js [] = []" "js (c # s) = of_char c # js s"
  by (simp_all add: js_def)

lemma constructor_eq:
  "ILevelClient_constructor h a =
     (h @ [\<lparr>baseUrl = baseUrl (h ! a), username = username (h ! a), password = password (h ! a),
            isSandbox = isSandbox (h ! a),
            apiVersion = (case apiVersion (h ! a) of Absent \<Rightarrow> Present (js ''v1'') | p \<Rightarrow> p)\<rparr>],
      \<lparr>client =
         \<lparr>baseURL = baseUrl (h ! a) @ js ''/api/'' @ version_segment (apiVersion (h ! a)),
          auth = (username (h ! a), password (h ! a)),
          headers = [(js ''Content-Type'', js ''application/json''), (js ''Accept'', js ''application/json'')],
          timeout = 30000, method = None, url = None, params = None, data = None\<rparr>,
       this_config = length h\<rparr>)"
  by (simp add: ILevelClient_constructor_def alloc_def Let_def version_segment_def optional_template_def
      split: optional.splits)

lemma io_cases:
  "bind_io (axios_request net req) (\<lambda>r. return_io (response_data r)) =
     ([req], case net req of
        Replied st body \<Rightarrow>
          if 200 \<le> st \<and> st < 300 then Inr body
          else Inl (Axios (AxiosError (js ''Request failed with status code '' @ Number_toString (Number_of_int st))
                             (Some (AxiosResponse st body)) True))
      | NoReply msg \<Rightarrow> Inl (Axios (AxiosError msg None True))
      | NotSent msg \<Rightarrow> Inl (Axios (AxiosError msg None False)))"
  by (auto simp: bind_io_def axios_request_def return_io_def split: outcome.splits)

lemmas client_methods =
  getUsers_def getUser_def getClients_def getClient_def getPortfolios_def getAssets_def
  getFunds_def getInvestments_def getDocuments_def getDocument_def getValuations_def
  createValuation_def queryData_def getWebhooks_def createWebhook_def deleteWebhook_def
  getCalculations_def request_generic_def axios_get_def axios_post_def axios_delete_def

lemma respond_fetch:
  "respond (bind_io (axios_request net req) (\<lambda>r. return_io (response_data r))) = fetch net req"
  unfolding respond_def io_cases
  by (auto simp: fetch_def bind_io_def return_io_def split: outcome.splits)

lemma respond_fetch':
  "respond (bind_io (axios_request net req) (\<lambda>r. ([], Inr (response_data r)))) = fetch net req"
  using respond_fetch [of net req] by (simp add: return_io_def)

lemma bind_destructure:
  "bind_io (destructure args p) f =
     (case args of
        None \<Rightarrow> ([], Inl (TypeError (js ''Cannot destructure property '' @ [0x27] @ p @ [0x27]
                               @ js '' of '' @ [0x27] @ js ''args'' @ [0x27]
                               @ js '' as it is undefined.'')))
      | Some obj \<Rightarrow> f (map_of obj))"
  by (simp add: destructure_def bind_io_def throw_io_def return_io_def split: option.splits prod.splits)

lemma fetch_not_mcp: "snd (fetch net req) \<noteq> Inl (Mcp m)"
  by (simp add: fetch_def split: outcome.splits)

lemma fetch_trace: "fst (fetch net req) = [req]"
  by (simp add: fetch_def)

lemma test_connection_tool:
  "bind_io (testConnection c net) f =
     (case f (\<not> isl (snd (axios_get net (client c) (js ''/users'') None))) of
        (tr, r) \<Rightarrow> ((client c)\<lparr>method := Some (JString (js ''GET'')), url := Some (JString (js ''/users'')), params := None\<rparr> # tr, r))"
  by (simp add: testConnection_def axios_get_def axios_request_def bind_io_def split: outcome.splits prod.splits)

lemmas dispatch_unfold = dispatch_def Let_def client_methods respond_fetch' bind_destructure
  test_connection_tool return_io_def throw_io_def

lemma shape_type_error: "tool_shape srv net ([], Inl (TypeError msg))"
  by (simp add: tool_shape_def)

lemma shape_mcp: "tool_shape srv net ([], Inl (Mcp m))"
  by (simp add: tool_shape_def)

lemma shape_fetch_params:
  "tool_shape srv net (fetch net ((client (iLevelClient srv))\<lparr>method := m, url := u, params := p\<rparr>))"
proof -
  have "(client (iLevelClient srv))\<lparr>method := m, url := u, params := p\<rparr>
      = (client (iLevelClient srv))\<lparr>method := m, url := u, params := p, data := data (client (iLevelClient srv))\<rparr>"
    by simp
  then show ?thesis
    unfolding tool_shape_def by metis
qed

lemma shape_fetch_data:
  "tool_shape srv net (fetch net ((client (iLevelClient srv))\<lparr>method := m, url := u, data := d\<rparr>))"
proof -
  have "(client (iLevelClient srv))\<lparr>method := m, url := u, data := d\<rparr>
      = (client (iLevelClient srv))\<lparr>method := m, url := u, params := params (client (iLevelClient srv)), data := d\<rparr>"
    by simp
  then show ?thesis
    unfolding tool_shape_def by metis
qed

lemma shape_fetch_plain:
  "tool_shape srv net (fetch net ((client (iLevelClient srv))\<lparr>method := m, url := u\<rparr>))"
proof -
  have "(client (iLevelClient srv))\<lparr>method := m, url := u\<rparr>
      = (client (iLevelClient srv))\<lparr>method := m, url := u, params := params (client (iLevelClient srv)),
           data := data (client (iLevelClient srv))\<rparr>"
    by simp
  then show ?thesis
    unfolding tool_shape_def by metis
qed

lemmas shape_intros = shape_type_error shape_mcp shape_fetch_params shape_fetch_data shape_fetch_plain

lemma dispatch_shape:
  assumes "nm \<noteq> js ''test_connection''"
  shows "tool_shape srv net (dispatch srv net nm args)"
  using assms by (simp add: dispatch_unfold shape_intros split: option.splits)

lemma probe_dispatch:
  "dispatch srv net (js ''test_connection'') args =
     ([(client (iLevelClient srv))\<lparr>method := Some (JString (js ''GET'')), url := Some (JString (js ''/users'')),
          params := None\<rparr>],
      Inr (formatResponse (JObject
        [(js ''connected'', JBool (\<not> isl (snd (axios_get net (client (iLevelClient srv)) (js ''/users'') None)))),
         (js ''message'',
          JString (if \<not> isl (snd (axios_get net (client (iLevelClient srv)) (js ''/users'') None))
                   then js ''Successfully connected to iLevel API''
                   else js ''Failed to connect to iLevel API''))])))"
  by (simp add: dispatch_def Let_def test_connection_tool return_io_def)

lemma call_tool_trace: "fst (call_tool srv net nm args) = fst (dispatch srv net nm args)"
  by (simp add: call_tool_def split: prod.splits sum.splits)

lemma dispatch_requests:
  assumes "req \<in> set (fst (dispatch srv net nm args))"
  shows "baseURL req = baseURL (client (iLevelClient srv)) \<and> auth req = auth (client (iLevelClient srv))
       \<and> headers req = headers (client (iLevelClient srv))
       \<and> timeout req = timeout (client (iLevelClient srv))"
proof (cases "nm = js ''test_connection''")
  case True
  with assms show ?thesis by (simp add: probe_dispatch)
next
  case False
  from dispatch_shape [OF False, of srv net args] assms show ?thesis
    by (auto simp: tool_shape_def fetch_trace)
qed

lemma startup_running:
  assumes "startup environment net = (tr, Running srv)"
  shows "\<exists>b u p. environment (js ''ILEVEL_BASE_URL'') = Some b \<and> environment (js ''ILEVEL_USERNAME'') = Some u
           \<and> environment (js ''ILEVEL_PASSWORD'') = Some p
           \<and> srv = \<lparr>heap = fst (ILevelClient_constructor
                                   [\<lparr>baseUrl = b, username = u, password = p,
                                     isSandbox = Present (environment (js ''ILEVEL_SANDBOX'') = Some (js ''true'')),
                                     apiVersion = Absent\<rparr>] 0),
                     config = 0,
                     iLevelClient = snd (ILevelClient_constructor
                                   [\<lparr>baseUrl = b, username = u, password = p,
                                     isSandbox = Present (environment (js ''ILEVEL_SANDBOX'') = Some (js ''true'')),
                                     apiVersion = Absent\<rparr>] 0)\<rparr>"
  using assms
  by (auto simp: startup_def alloc_def main_def testConnection_def axios_get_def axios_request_def
      split: option.splits if_splits prod.splits outcome.splits)

lemma startup_client:
  assumes "startup environment net0 = (tr0, Running srv)"
    and "environment (js ''ILEVEL_BASE_URL'') = Some base"
  shows "baseURL (client (iLevelClient srv)) = base @ js ''/api/v1''"
  using startup_running [OF assms(1)] assms(2)
  by (auto simp: constructor_eq version_segment_def)

lemma message_contains: "sublist x (McpError_message (McpError c (a @ x @ b)))"
proof -
  have "McpError_message (McpError c (a @ x @ b))
      = (js ''MCP error '' @ Number_toString (Number_of_int (ErrorCode_number c)) @ js '': '' @ a) @ x @ b"
    by (simp add: McpError_message_def)
  then show ?thesis
    by (simp only: sublist_appendI)
qed

subsection \<open>The concrete deployment\<close>

lemma example_constructor:
  "ILevelClient_constructor [example_config] 0 =
     ([example_config, example_config\<lparr>apiVersion := Present (js ''v1'')\<rparr>],
      \<lparr>client =
         \<lparr>baseURL = js ''https://sandapi.ilevelsolutions.com/api/v1'',
          auth = (js ''analyst'', js ''secret''),
          headers = [(js ''Content-Type'', js ''application/json''), (js ''Accept'', js ''application/json'')],
          timeout = 30000, method = None, url = None, params = None, data = None\<rparr>,
       this_config = 1\<rparr>)"
  by (simp add: constructor_eq example_config_def version_segment_def)

lemma startup_example:
  "startup example_env net = (fst (testConnection (iLevelClient example_server) net), Running example_server)"
  by (simp add: startup_def example_env_def example_server_def example_config_def alloc_def main_def
      testConnection_def axios_get_def axios_request_def split: prod.splits outcome.splits)

lemma example_base: "example_env (js ''ILEVEL_BASE_URL'') = Some (js ''https://sandapi.ilevelsolutions.com'')"
  by (simp add: example_env_def)

lemma acme_network_replies: "acme_network req = Replied 200 acme"
  by (simp add: acme_network_def)

lemma get_user_dispatch:
  "dispatch srv net (js ''get_user'') (Some obj) =
     fetch net ((client (iLevelClient srv))\<lparr>method := Some (JString (js ''GET'')),
        url := Some (JString (js ''/users/'' @ template (map_of obj (js ''userId'')))), params := None\<rparr>)"
  by (simp add: dispatch_unfold)

subsection \<open>Computing texts\<close>

lemma replicate_numeral: "replicate (numeral k) x = x # replicate (pred_numeral k) x"
  by (simp add: numeral_eq_Suc)

lemmas stringify_simps =
  JSON_stringify_def QuoteJSONString_def QuoteJSONChar_def is_leading_surrogate_def
  is_trailing_surrogate_def Let_def replicate_numeral js_simps

lemmas number_simps =
  Number_toString_def Number_of_int_def decimal_def strip_zeros.simps nat_to_string.simps
  nonzero_digit_of_def replicate_numeral js_simps is_finite_def

lemma Number_toString_500: "Number_toString (Number_of_int 500) = js ''500''"
  by (simp add: number_simps)

lemma Number_toString_code: "Number_toString (Number_of_int (- 32601)) = js ''-32601''"
  by (simp add: number_simps)

lemma acme_pretty: "JSON_stringify acme 2 = acme_text"
  by (simp add: acme_def acme_text_def stringify_simps)

lemma formatResponse_acme:
  "formatResponse acme = \<lparr>content = [\<lparr>type = js ''text'', text = acme_text\<rparr>]\<rparr>"
proof -
  have "formatResponse acme = \<lparr>content = [\<lparr>type = js ''text'', text = JSON_stringify acme 2\<rparr>]\<rparr>"
    by (simp add: formatResponse_def acme_def)
  then show ?thesis
    by (simp only: acme_pretty)
qed

lemma Number_toString_internal: "Number_toString (Number_of_int (- 32603)) = js ''-32603''"
  by (simp add: number_simps)

section \<open>Serialise, then parse\<close>

declare js_simps [simp]

subsection \<open>Numbers\<close>

lemma number_end_digit_end: "number_end rest \<Longrightarrow> digit_end rest"
  by (auto simp: number_end_def digit_end_def)

lemma hex_value_hex_digit: "d < 16 \<Longrightarrow> hex_value (hex_digit d) = Some d"
  by (auto simp: hex_value_def hex_digit_def)

lemma nat_to_string_digits: "c \<in> set (nat_to_string n) \<Longrightarrow> is_digit c"
proof (induction n arbitrary: c rule: nat_to_string.induct)
  case (1 n)
  show ?case
  proof (cases "n < 10")
    case True
    with "1.prems" show ?thesis
      by (simp add: nat_to_string.simps [of n] is_digit_def)
  next
    case False
    with "1.prems" "1.IH" show ?thesis
      by (auto simp: nat_to_string.simps [of n] is_digit_def)
  qed
qed

lemma nat_to_string_nonempty: "nat_to_string n \<noteq> []"
  by (simp add: nat_to_string.simps [of n])

lemma digits_value_snoc: "digits_value (ds @ [c]) = 10 * digits_value ds + (c - 48)"
  by (simp add: digits_value_def)

lemma digits_value_Nil: "digits_value [] = 0"
  by (simp add: digits_value_def)

lemma digits_value_append:
  "digits_value (a @ b) = digits_value a * 10 ^ length b + digits_value b"
proof (induction b rule: rev_induct)
  case Nil
  then show ?case by (simp add: digits_value_Nil)
next
  case (snoc c b)
  have "digits_value (a @ b @ [c]) = 10 * digits_value (a @ b) + (c - 48)"
    using digits_value_snoc [of "a @ b" c] by simp
  then show ?case
    by (simp add: snoc.IH digits_value_snoc algebra_simps)
qed

lemma digits_value_zeros: "digits_value (replicate j 48) = 0"
proof (induction j)
  case 0
  then show ?case by (simp add: digits_value_Nil)
next
  case (Suc j)
  have "replicate (Suc j) 48 = replicate j 48 @ [48::nat]"
    by (simp add: replicate_append_same)
  then have "digits_value (replicate (Suc j) 48) = 10 * digits_value (replicate j 48) + (48 - 48)"
    by (simp only: digits_value_snoc)
  then show ?case
    using Suc.IH by simp
qed

lemma digits_value_nat_to_string: "digits_value (nat_to_string n) = n"
proof (induction n rule: nat_to_string.induct)
  case (1 n)
  show ?case
  proof (cases "n < 10")
    case True
    then show ?thesis
      by (simp add: nat_to_string.simps [of n] digits_value_def)
  next
    case False
    then have "digits_value (nat_to_string n) = 10 * (n div 10) + n mod 10"
      using "1.IH" by (simp add: nat_to_string.simps [of n] digits_value_snoc)
    then show ?thesis by simp
  qed
qed

lemma nat_to_string_no_leading_zero: "0 < n \<Longrightarrow> hd (nat_to_string n) \<noteq> 48"
proof (induction n rule: nat_to_string.induct)
  case (1 n)
  show ?case
  proof (cases "n < 10")
    case True
    with "1.prems" show ?thesis
      by (simp add: nat_to_string.simps [of n])
  next
    case False
    then have "0 < n div 10" by simp
    with False "1.IH" show ?thesis
      by (simp add: nat_to_string.simps [of n] nat_to_string_nonempty)
  qed
qed

lemma nat_to_string_single: "n < 10 \<Longrightarrow> nat_to_string n = [48 + n]"
  by (simp add: nat_to_string.simps [of n])

lemma nat_to_string_leading:
  "\<not> (1 < length (nat_to_string n) \<and> hd (nat_to_string n) = 48)"
proof (cases "n < 10")
  case True
  then show ?thesis by (simp add: nat_to_string_single)
next
  case False
  then show ?thesis using nat_to_string_no_leading_zero [of n] by simp
qed

lemma takeWhile_digits:
  assumes "\<forall>c \<in> set ds. is_digit c" and "digit_end rest"
  shows "takeWhile is_digit (ds @ rest) = ds"
    and "dropWhile is_digit (ds @ rest) = rest"
proof -
  have r: "takeWhile is_digit rest = []" "dropWhile is_digit rest = rest"
    using assms(2) by (cases rest; simp add: digit_end_def)+
  show "takeWhile is_digit (ds @ rest) = ds"
    using r assms(1) by (simp add: takeWhile_append2)
  show "dropWhile is_digit (ds @ rest) = rest"
    using r assms(1) by (simp add: dropWhile_append2)
qed

lemma digit_of_range: "0 < digit_of d" "digit_of d < 10"
  by (cases d; simp)+

lemma nonzero_digit_of_digit_of: "nonzero_digit_of (digit_of d) = d"
  by (cases d) (simp_all add: nonzero_digit_of_def)

lemma strip_zeros_power:
  assumes "s mod 10 \<noteq> 0"
  shows "strip_zeros (s * 10 ^ j) e = (s, e + int j)"
proof (induction j arbitrary: e)
  case 0
  then show ?case using assms by (simp add: strip_zeros.simps [of s])
next
  case (Suc j)
  have p: "0 < s" using assms by (cases s) auto
  have "strip_zeros (s * 10 ^ Suc j) e = strip_zeros (s * 10 ^ j) (e + 1)"
    using p by (subst strip_zeros.simps) simp
  then show ?case
    by (simp add: Suc.IH)
qed

lemma decimal_significand:
  "decimal neg ((10 * m + digit_of d) * 10 ^ j) e = Finite neg m d (e + int j)"
proof -
  let ?s = "10 * m + digit_of d"
  have dm: "digit_of d mod 10 = digit_of d" "digit_of d div 10 = 0"
    using digit_of_range [of d] by simp_all
  have m: "?s mod 10 = digit_of d" "?s div 10 = m"
    using dm by simp_all
  then have "?s mod 10 \<noteq> 0"
    using digit_of_range [of d] by simp
  then have z: "strip_zeros (?s * 10 ^ j) e = (?s, e + int j)"
    by (rule strip_zeros_power)
  have nz: "?s * 10 ^ j \<noteq> 0"
    using digit_of_range [of d] by simp
  show ?thesis
    unfolding decimal_def z using nz
    by (simp only: if_False split m nonzero_digit_of_digit_of)
qed


lemma is_digit_not_minus: "is_digit c \<Longrightarrow> c \<noteq> 0x2D"
  by (auto simp: is_digit_def)

lemma parse_fraction_none: "take 1 s \<noteq> [0x2E] \<Longrightarrow> parse_fraction s = Some ([], s)"
  by (simp add: parse_fraction_def)

lemma parse_fraction_digits:
  assumes "fp \<noteq> []" and "\<forall>c \<in> set fp. is_digit c" and "digit_end tail"
  shows "parse_fraction (0x2E # fp @ tail) = Some (fp, tail)"
  using assms(1) by (simp add: parse_fraction_def takeWhile_digits [OF assms(2,3)])

lemma parse_exponent_none:
  "take 1 s \<noteq> [0x65] \<Longrightarrow> take 1 s \<noteq> [0x45] \<Longrightarrow> parse_exponent s = Some (0, s)"
  by (simp add: parse_exponent_def)

lemma parse_exponent_text:
  assumes "digit_end rest"
  shows "parse_exponent (0x65 # exponent_text j @ rest) = Some (j, rest)"
proof -
  let ?ds = "nat_to_string (nat \<bar>j\<bar>)"
  have d: "\<forall>c \<in> set ?ds. is_digit c"
    using nat_to_string_digits by blast
  note tw = takeWhile_digits [OF d assms]
  obtain c cs where c: "?ds = c # cs"
    using nat_to_string_nonempty [of "nat \<bar>j\<bar>"] by (cases ?ds) auto
  then have "is_digit c"
    using d by simp
  then have cd: "c \<noteq> 0x2D" "c \<noteq> 0x2B"
    by (auto simp: is_digit_def)
  show ?thesis
  proof (cases "j < 0")
    case True
    have t: "exponent_text j @ rest = 0x2D # ?ds @ rest"
      using True by (simp add: exponent_text_def)
    have e: "take 1 (0x65 # 0x2D # ?ds @ rest) = js ''e''"
      "drop 1 (0x65 # 0x2D # ?ds @ rest) = 0x2D # ?ds @ rest"
      "take 1 (0x2D # ?ds @ rest) = js ''-''"
      "drop 1 (0x2D # ?ds @ rest) = ?ds @ rest"
      by simp_all
    show ?thesis
      unfolding t parse_exponent_def Let_def e
      using True tw by (simp add: nat_to_string_nonempty digits_value_nat_to_string)
  next
    case False
    have t: "exponent_text j @ rest = 0x2B # ?ds @ rest"
      using False by (simp add: exponent_text_def)
    have e: "take 1 (0x65 # 0x2B # ?ds @ rest) = js ''e''"
      "drop 1 (0x65 # 0x2B # ?ds @ rest) = 0x2B # ?ds @ rest"
      "(take 1 (0x2B # ?ds @ rest) = js ''-'') = False"
      "take 1 (0x2B # ?ds @ rest) = js ''+''"
      "drop 1 (0x2B # ?ds @ rest) = ?ds @ rest"
      by simp_all
    show ?thesis
      unfolding t parse_exponent_def Let_def e
      using False tw by (simp add: nat_to_string_nonempty digits_value_nat_to_string)
  qed
qed

lemma number_end_take:
  assumes "number_end rest"
  shows "take 1 rest \<noteq> [0x2E]" "take 1 rest \<noteq> [0x65]" "take 1 rest \<noteq> [0x45]"
  using assms by (cases rest; simp add: number_end_def)+

lemma parse_number_digits:
  assumes "ip \<noteq> []" and "\<forall>c \<in> set ip. is_digit c"
    and "\<not> (1 < length ip \<and> hd ip = 48)" and "digit_end tail"
  shows "parse_number ((if neg then [0x2D] else []) @ ip @ tail) =
     (case parse_fraction tail of
        None \<Rightarrow> None
      | Some (fp, s2) \<Rightarrow>
          (case parse_exponent s2 of
             None \<Rightarrow> None
           | Some (ex, rest) \<Rightarrow>
               Some (JNumber (decimal neg (digits_value (ip @ fp)) (ex - int (length fp))), rest)))"
proof -
  obtain c cs where c: "ip = c # cs"
    using assms(1) by (cases ip) auto
  then have "is_digit c"
    using assms(2) by simp
  then have m: "c \<noteq> 0x2D"
    by (rule is_digit_not_minus)
  note tw = takeWhile_digits [OF assms(2,4)]
  show ?thesis
  proof (cases neg)
    case True
    have "parse_number (0x2D # ip @ tail) =
     (case parse_fraction tail of
        None \<Rightarrow> None
      | Some (fp, s2) \<Rightarrow>
          (case parse_exponent s2 of
             None \<Rightarrow> None
           | Some (ex, rest) \<Rightarrow>
               Some (JNumber (decimal True (digits_value (ip @ fp)) (ex - int (length fp))), rest)))"
      unfolding parse_number_def Let_def using assms(1,3) tw
      by (simp split: option.splits prod.splits)
    then show ?thesis
      using True by (simp split: option.splits prod.splits)
  next
    case False
    have e: "take 1 (ip @ tail) \<noteq> [0x2D]"
      using c m by simp
    have "parse_number (ip @ tail) =
     (case parse_fraction tail of
        None \<Rightarrow> None
      | Some (fp, s2) \<Rightarrow>
          (case parse_exponent s2 of
             None \<Rightarrow> None
           | Some (ex, rest) \<Rightarrow>
               Some (JNumber (decimal False (digits_value (ip @ fp)) (ex - int (length fp))), rest)))"
      unfolding parse_number_def Let_def using assms(1,3) tw e
      by (simp split: option.splits prod.splits)
    then show ?thesis
      using False by (simp split: option.splits prod.splits)
  qed
qed

lemma parse_number_finish:
  assumes "ip \<noteq> []" and "\<forall>c \<in> set ip. is_digit c"
    and "\<not> (1 < length ip \<and> hd ip = 48)" and "digit_end tail"
    and "parse_fraction tail = Some (fp, s2)"
    and "parse_exponent s2 = Some (ex, rest)"
    and "decimal neg (digits_value (ip @ fp)) (ex - int (length fp)) = x"
  shows "parse_number ((if neg then [0x2D] else []) @ ip @ tail) = Some (JNumber x, rest)"
  using parse_number_digits [OF assms(1-4), of neg] assms(5-7) by simp

lemma digit_end_cons: "\<not> is_digit c \<Longrightarrow> digit_end (c # s)"
  by (simp add: digit_end_def)

lemma not_digit_e: "\<not> is_digit 0x65" "\<not> is_digit 0x2E"
  by (simp_all add: is_digit_def)

lemma is_digit_zero: "is_digit 48"
  by (simp add: is_digit_def)

lemma decimal_plain: "decimal neg (10 * m + digit_of d) e = Finite neg m d e"
  using decimal_significand [of neg m d 0 e] by simp

lemma number_round_trip:
  assumes "number_end rest"
  shows "parse_number (Number_toString (Finite neg m d e) @ rest)
         = Some (JNumber (Finite neg m d e), rest)"
proof -
  let ?s = "10 * m + digit_of d"
  let ?ds = "nat_to_string ?s"
  let ?k = "length ?ds"
  let ?n = "e + int ?k"
  let ?sign = "if neg then [0x2D] else []"
  have pos: "0 < ?s"
    using digit_of_range [of d] by simp
  have ne: "?ds \<noteq> []"
    by (rule nat_to_string_nonempty)
  then have k: "0 < ?k" by simp
  have dig: "\<forall>c \<in> set ?ds. is_digit c"
    using nat_to_string_digits by blast
  have lead: "hd ?ds \<noteq> 48"
    using nat_to_string_no_leading_zero [OF pos] .
  have val: "digits_value ?ds = ?s"
    by (rule digits_value_nat_to_string)
  have de: "digit_end rest"
    using assms by (rule number_end_digit_end)
  have fr: "parse_fraction rest = Some ([], rest)"
    using number_end_take(1) [OF assms] by (rule parse_fraction_none)
  have ex: "parse_exponent rest = Some (0, rest)"
    using number_end_take(2,3) [OF assms] by (rule parse_exponent_none)
  consider (a) "int ?k \<le> ?n" "?n \<le> 21"
    | (b) "\<not> int ?k \<le> ?n" "0 < ?n" "?n \<le> 21"
    | (c) "- 6 < ?n" "?n \<le> 0"
    | (d) "\<not> (?n \<le> 21 \<and> - 6 < ?n)" "?k = 1"
    | (e) "\<not> (?n \<le> 21 \<and> - 6 < ?n)" "?k \<noteq> 1"
    by linarith
  then show ?thesis
  proof cases
    case a
    let ?j = "nat (?n - int ?k)"
    have t: "Number_toString (Finite neg m d e) @ rest = ?sign @ (?ds @ replicate ?j 48) @ rest"
      using a by (simp add: Number_toString_def Let_def)
    have v: "decimal neg (digits_value ((?ds @ replicate ?j 48) @ [])) (0 - int (length ([]::ustring)))
          = Finite neg m d e"
      using a decimal_significand [of neg m d ?j 0]
      by (simp add: digits_value_append val digits_value_zeros)
    show ?thesis
      unfolding t
    proof (rule parse_number_finish [OF _ _ _ de fr ex v])
      show "?ds @ replicate ?j 48 \<noteq> []" using ne by simp
      show "\<forall>c \<in> set (?ds @ replicate ?j 48). is_digit c"
        using dig by (auto simp: is_digit_zero)
      show "\<not> (1 < length (?ds @ replicate ?j 48) \<and> hd (?ds @ replicate ?j 48) = 48)"
        using ne lead by simp
    qed
  next
    case b
    let ?j = "nat ?n"
    have j: "0 < ?j" "?j < ?k"
      using b by simp_all
    have t: "Number_toString (Finite neg m d e) @ rest
          = ?sign @ take ?j ?ds @ (0x2E # drop ?j ?ds @ rest)"
      using b by (simp add: Number_toString_def Let_def)
    have fp: "parse_fraction (0x2E # drop ?j ?ds @ rest) = Some (drop ?j ?ds, rest)"
    proof (rule parse_fraction_digits [OF _ _ de])
      show "drop ?j ?ds \<noteq> []" using j by simp
      show "\<forall>c \<in> set (drop ?j ?ds). is_digit c"
        using dig by (meson in_set_dropD)
    qed
    have v: "decimal neg (digits_value (take ?j ?ds @ drop ?j ?ds)) (0 - int (length (drop ?j ?ds)))
          = Finite neg m d e"
    proof -
      have "0 - int (length (drop ?j ?ds)) = e"
        using j b by simp
      then show ?thesis
        by (simp only: append_take_drop_id val decimal_plain)
    qed
    show ?thesis
      unfolding t
    proof (rule parse_number_finish [OF _ _ _ _ fp ex v])
      show "take ?j ?ds \<noteq> []" using j ne by simp
      show "\<forall>c \<in> set (take ?j ?ds). is_digit c"
        using dig by (meson in_set_takeD)
      show "\<not> (1 < length (take ?j ?ds) \<and> hd (take ?j ?ds) = 48)"
        using j lead by (simp add: hd_take)
      show "digit_end (0x2E # drop ?j ?ds @ rest)"
        by (rule digit_end_cons) (rule not_digit_e)
    qed
  next
    case c
    let ?z = "replicate (nat (- ?n)) (48::nat)"
    have "e < 0"
      using c k by linarith
    then have t: "Number_toString (Finite neg m d e) @ rest
          = ?sign @ [48] @ (0x2E # (?z @ ?ds) @ rest)"
      using c by (simp add: Number_toString_def Let_def)
    have fp: "parse_fraction (0x2E # (?z @ ?ds) @ rest) = Some (?z @ ?ds, rest)"
    proof (rule parse_fraction_digits [OF _ _ de])
      show "?z @ ?ds \<noteq> []" using ne by simp
      show "\<forall>c \<in> set (?z @ ?ds). is_digit c"
        using dig by (auto simp: is_digit_zero)
    qed
    have v: "decimal neg (digits_value ([48] @ ?z @ ?ds)) (0 - int (length (?z @ ?ds)))
          = Finite neg m d e"
    proof -
      have "[48] @ ?z = replicate (Suc (nat (- ?n))) (48::nat)"
        by simp
      then have "digits_value ([48] @ ?z) = 0"
        by (simp only: digits_value_zeros)
      then have "digits_value (([48] @ ?z) @ ?ds) = ?s"
        using digits_value_append [of "[48] @ ?z" ?ds] val by simp
      moreover have "0 - int (length (?z @ ?ds)) = e"
        using c by simp
      ultimately show ?thesis
        by (simp only: append_assoc decimal_plain)
    qed
    show ?thesis
      unfolding t
    proof (rule parse_number_finish [OF _ _ _ _ fp ex v])
      show "[48] \<noteq> ([]::ustring)" by simp
      show "\<forall>c \<in> set [48]. is_digit c" by (simp add: is_digit_zero)
      show "\<not> (1 < length [48::nat] \<and> hd [48::nat] = 48)" by simp
      show "digit_end (0x2E # (?z @ ?ds) @ rest)"
        by (rule digit_end_cons) (rule not_digit_e)
    qed
  next
    case d
    have t: "Number_toString (Finite neg m d e) @ rest
          = ?sign @ ?ds @ (0x65 # exponent_text (?n - 1) @ rest)"
      using d by (auto simp: Number_toString_def Let_def)
    have fp: "parse_fraction (0x65 # exponent_text (?n - 1) @ rest)
          = Some ([], 0x65 # exponent_text (?n - 1) @ rest)"
      by (rule parse_fraction_none) simp
    have ep: "parse_exponent (0x65 # exponent_text (?n - 1) @ rest) = Some (?n - 1, rest)"
      using de by (rule parse_exponent_text)
    have v: "decimal neg (digits_value (?ds @ [])) (?n - 1 - int (length ([]::ustring)))
          = Finite neg m d e"
      using d(2) by (simp add: val decimal_plain)
    show ?thesis
      unfolding t
    proof (rule parse_number_finish [OF ne dig _ _ fp ep v])
      show "\<not> (1 < ?k \<and> hd ?ds = 48)" using lead by simp
      show "digit_end (0x65 # exponent_text (?n - 1) @ rest)"
        by (rule digit_end_cons) (rule not_digit_e)
    qed
  next
    case e
    have k1: "1 < ?k" using k e(2) by linarith
    have t: "Number_toString (Finite neg m d e) @ rest
          = ?sign @ take 1 ?ds @ (0x2E # drop 1 ?ds @ 0x65 # exponent_text (?n - 1) @ rest)"
      using e k1 by (auto simp: Number_toString_def Let_def)
    have fp: "parse_fraction (0x2E # drop 1 ?ds @ 0x65 # exponent_text (?n - 1) @ rest)
          = Some (drop 1 ?ds, 0x65 # exponent_text (?n - 1) @ rest)"
    proof (rule parse_fraction_digits)
      show "drop 1 ?ds \<noteq> []" using k1 by simp
      show "\<forall>c \<in> set (drop 1 ?ds). is_digit c"
        using dig by (meson in_set_dropD)
      show "digit_end (0x65 # exponent_text (?n - 1) @ rest)"
        by (rule digit_end_cons) (rule not_digit_e)
    qed
    have ep: "parse_exponent (0x65 # exponent_text (?n - 1) @ rest) = Some (?n - 1, rest)"
      using de by (rule parse_exponent_text)
    have v: "decimal neg (digits_value (take 1 ?ds @ drop 1 ?ds)) (?n - 1 - int (length (drop 1 ?ds)))
          = Finite neg m d e"
    proof -
      have "?n - 1 - int (length (drop 1 ?ds)) = e"
        using k1 by simp
      then show ?thesis
        by (simp only: append_take_drop_id val decimal_plain)
    qed
    show ?thesis
      unfolding t
    proof (rule parse_number_finish [OF _ _ _ _ fp ep v])
      show "take 1 ?ds \<noteq> []" using ne by simp
      show "\<forall>c \<in> set (take 1 ?ds). is_digit c"
        using dig by (meson in_set_takeD)
      show "\<not> (1 < length (take 1 ?ds) \<and> hd (take 1 ?ds) = 48)"
        using lead ne by (simp add: hd_take)
      show "digit_end (0x2E # drop 1 ?ds @ 0x65 # exponent_text (?n - 1) @ rest)"
        by (rule digit_end_cons) (rule not_digit_e)
    qed
  qed
qed

subsection \<open>Strings\<close>

lemma hex4_escape:
  assumes "c < 65536"
  shows "hex4 (hex_digit (c div 4096 mod 16)) (hex_digit (c div 256 mod 16))
           (hex_digit (c div 16 mod 16)) (hex_digit (c mod 16)) = Some c"
proof -
  have a1: "c div 16 * 16 + c mod 16 = c"
    by simp
  have a2: "c div 256 * 16 + c div 16 mod 16 = c div 16"
  proof -
    have "c div 256 = c div 16 div 16"
      by (simp add: div_mult2_eq)
    then show ?thesis by simp
  qed
  have a3: "c div 4096 * 16 + c div 256 mod 16 = c div 256"
  proof -
    have "c div 4096 = c div 256 div 16"
      by (simp add: div_mult2_eq)
    then show ?thesis by simp
  qed
  have a4: "c div 4096 mod 16 = c div 4096"
    using assms by simp
  have e: "((c div 4096 mod 16 * 16 + c div 256 mod 16) * 16 + c div 16 mod 16) * 16 + c mod 16 = c"
    by (simp only: a4 a3 a2 a1)
  have hv: "hex_value (hex_digit (c div 4096 mod 16)) = Some (c div 4096 mod 16)"
    "hex_value (hex_digit (c div 256 mod 16)) = Some (c div 256 mod 16)"
    "hex_value (hex_digit (c div 16 mod 16)) = Some (c div 16 mod 16)"
    "hex_value (hex_digit (c mod 16)) = Some (c mod 16)"
    by (simp_all add: hex_value_hex_digit)
  show ?thesis
    by (simp only: hex4_def hv prod.case option.case e)
qed

lemma parse_chars_plain:
  assumes "c \<noteq> 0x22" and "c \<noteq> 0x5C" and "\<not> c < 0x20"
  shows "parse_chars (c # tail) = cons_char c (parse_chars tail)"
  using assms by simp

lemma parse_chars_quote_char:
  "parse_chars (QuoteJSONChar c @ tail) = cons_char c (parse_chars tail)"
proof -
  consider (esc) "c \<in> {0x08, 0x09, 0x0A, 0x0C, 0x0D, 0x22, 0x5C}"
    | (uni) "c \<notin> {0x08, 0x09, 0x0A, 0x0C, 0x0D, 0x22, 0x5C}"
        "c < 0x20 \<or> is_leading_surrogate c \<or> is_trailing_surrogate c"
    | (plain) "c \<notin> {0x08, 0x09, 0x0A, 0x0C, 0x0D, 0x22, 0x5C}"
        "\<not> (c < 0x20 \<or> is_leading_surrogate c \<or> is_trailing_surrogate c)"
    by blast
  then show ?thesis
  proof cases
    case esc
    then show ?thesis
      by (auto simp: QuoteJSONChar_def unescape_def)
  next
    case uni
    have "c < 65536"
      using uni(2) by (auto simp: is_leading_surrogate_def is_trailing_surrogate_def)
    note h = hex4_escape [OF this]
    have q: "QuoteJSONChar c = UnicodeEscape c"
      using uni by (simp add: QuoteJSONChar_def)
    show ?thesis
      unfolding q UnicodeEscape_def by (simp add: h)
  next
    case plain
    then have q: "QuoteJSONChar c = [c]"
      by (simp add: QuoteJSONChar_def)
    show ?thesis
      unfolding q using plain by simp
  qed
qed

lemma parse_chars_quoted:
  "parse_chars (QuoteJSONUnits s @ 0x22 # rest) = Some (s, rest)"
proof (induction s rule: QuoteJSONUnits.induct)
  case 1
  show ?case by simp
next
  case (2 c)
  have "parse_chars (QuoteJSONChar c @ 0x22 # rest) = cons_char c (parse_chars (0x22 # rest))"
    by (rule parse_chars_quote_char)
  then show ?case
    by (simp add: cons_char_def)
next
  case (3 c d cs)
  show ?case
  proof (cases "is_leading_surrogate c \<and> is_trailing_surrogate d")
    case True
    then have c: "c \<noteq> 0x22" "c \<noteq> 0x5C" "\<not> c < 0x20" "d \<noteq> 0x22" "d \<noteq> 0x5C" "\<not> d < 0x20"
      by (auto simp: is_leading_surrogate_def is_trailing_surrogate_def)
    have q: "QuoteJSONUnits (c # d # cs) @ 0x22 # rest = c # d # (QuoteJSONUnits cs @ 0x22 # rest)"
      using True by simp
    have p: "parse_chars (c # d # (QuoteJSONUnits cs @ 0x22 # rest))
        = cons_char c (cons_char d (parse_chars (QuoteJSONUnits cs @ 0x22 # rest)))"
      by (simp only: parse_chars_plain [OF c(1-3)] parse_chars_plain [OF c(4-6)])
    show ?thesis
      unfolding q p "3.IH"(1) [OF True] by (simp add: cons_char_def)
  next
    case False
    have "(is_leading_surrogate c \<and> is_trailing_surrogate d) = False"
      using False by simp
    then have q: "QuoteJSONUnits (c # d # cs) @ 0x22 # rest
        = QuoteJSONChar c @ (QuoteJSONUnits (d # cs) @ 0x22 # rest)"
      by (simp only: QuoteJSONUnits.simps if_False append_assoc)
    show ?thesis
      unfolding q parse_chars_quote_char "3.IH"(2) [OF False] by (simp add: cons_char_def)
  qed
qed

subsection \<open>Arrays and objects\<close>

lemma serialize_array:
  "SerializeJSONProperty gap indent (JArray vs) =
     (if vs = [] then [0x5B, 0x5D]
      else [0x5B] @ open_sep gap indent
           @ join (0x2C # open_sep gap indent) (map (SerializeJSONProperty gap (indent @ gap)) vs)
           @ close_sep gap indent @ [0x5D])"
  by (simp add: Let_def open_sep_def close_sep_def)

lemma member_text_fun:
  "member_text gap indent =
     (\<lambda>(k, v). QuoteJSONString k @ js '':'' @ (if gap = [] then [] else js '' '')
                @ SerializeJSONProperty gap indent v)"
  by (auto simp: fun_eq_iff member_text_def colon_sep_def)

lemma serialize_object:
  "SerializeJSONProperty gap indent (JObject kvs) =
     (if kvs = [] then [0x7B, 0x7D]
      else [0x7B] @ open_sep gap indent
           @ join (0x2C # open_sep gap indent) (map (member_text gap (indent @ gap)) kvs)
           @ close_sep gap indent @ [0x7D])"
  by (simp add: Let_def open_sep_def close_sep_def member_text_fun)

lemma skip_ws_append:
  assumes "\<forall>c \<in> set w. is_ws c" and "\<not> is_ws c"
  shows "skip_ws (w @ c # s) = c # s"
  using assms by (simp add: skip_ws_def dropWhile_append3)

lemma skip_ws_cons: "\<not> is_ws c \<Longrightarrow> skip_ws (c # s) = c # s"
  by (simp add: skip_ws_def)

lemma ws_open_sep:
  assumes "\<forall>c \<in> set gap. is_ws c" and "\<forall>c \<in> set indent. is_ws c"
  shows "\<forall>c \<in> set (open_sep gap indent). is_ws c"
  using assms by (auto simp: open_sep_def is_ws_def)

lemma ws_close_sep:
  assumes "\<forall>c \<in> set indent. is_ws c"
  shows "\<forall>c \<in> set (close_sep gap indent). is_ws c"
  using assms by (auto simp: close_sep_def is_ws_def)

lemma ws_colon_sep: "\<forall>c \<in> set (colon_sep gap). is_ws c"
  by (simp add: colon_sep_def is_ws_def)

lemma is_digit_value_start: "is_digit c \<Longrightarrow> value_start c"
  by (auto simp: is_digit_def value_start_def is_ws_def)

lemma Number_toString_head:
  "\<exists>c cs. Number_toString x = c # cs \<and> (c = 0x2D \<or> is_digit c \<or> c = 0x49)"
proof (cases x)
  case (Zero neg)
  then show ?thesis by (simp add: Number_toString_def is_digit_def)
next
  case (Infinity neg)
  then show ?thesis by (simp add: Number_toString_def)
next
  case (Finite neg m d e)
  let ?ds = "nat_to_string (10 * m + digit_of d)"
  obtain c cs where c: "?ds = c # cs"
    using nat_to_string_nonempty [of "10 * m + digit_of d"] by (cases ?ds) auto
  then have "is_digit c"
    using nat_to_string_digits [of c "10 * m + digit_of d"] by simp
  then show ?thesis
    using Finite c by (auto simp: Number_toString_def Let_def is_digit_def take_Cons')
qed

lemma serialize_head:
  "\<exists>c cs. SerializeJSONProperty gap indent v = c # cs \<and> value_start c"
proof (cases v)
  case (JNumber x)
  then show ?thesis
    using Number_toString_head [of x] is_digit_value_start
    by (auto simp: value_start_def is_ws_def)
next
  case (JArray vs)
  then show ?thesis
    by (simp add: serialize_array value_start_def is_ws_def del: SerializeJSONProperty.simps)
next
  case (JObject kvs)
  then show ?thesis
    by (simp add: serialize_object value_start_def is_ws_def del: SerializeJSONProperty.simps)
qed (simp_all add: value_start_def is_ws_def QuoteJSONString_def)

lemma number_end_cases:
  "number_end (0x2C # s)" "number_end (0x5D # s)" "number_end (0x7D # s)" "number_end []"
  by (simp_all add: number_end_def is_digit_def)

lemma number_end_ws: "is_ws c \<Longrightarrow> number_end (c # s)"
  by (auto simp: number_end_def is_digit_def is_ws_def)

lemma number_end_sep:
  assumes "\<forall>c \<in> set w. is_ws c" and "number_end s"
  shows "number_end (w @ s)"
  using assms by (cases w) (simp_all add: number_end_ws)

lemma join_head: "xs \<noteq> [] \<Longrightarrow> \<exists>t. join sep xs = hd xs @ t"
  by (induction sep xs rule: join.induct) auto


lemma parse_elements_join:
  assumes ws1: "\<forall>c \<in> set w1. is_ws c" and ws2: "\<forall>c \<in> set w2. is_ws c"
    and hd: "\<And>v. v \<in> set vs \<Longrightarrow> \<exists>c cs. pr v = c # cs \<and> value_start c"
    and val: "\<And>v fuel rest. v \<in> set vs \<Longrightarrow> fuel_of v \<le> fuel \<Longrightarrow> number_end rest
                \<Longrightarrow> parse_value fuel (pr v @ rest) = Some (f v, rest)"
    and ne: "vs \<noteq> []"
    and fuel: "sum_list (map (\<lambda>v. Suc (fuel_of v)) vs) \<le> fuel"
  shows "parse_elements fuel (join (0x2C # w1) (map pr vs) @ w2 @ 0x5D # rest) = Some (map f vs, rest)"
  using hd val ne fuel
proof (induction vs arbitrary: fuel)
  case Nil
  then show ?case by simp
next
  case (Cons v vs)
  from Cons.prems(4) obtain n where n: "fuel = Suc n"
    by (cases fuel) auto
  have fv: "fuel_of v \<le> n"
    using Cons.prems(4) n by simp
  show ?case
  proof (cases "vs = []")
    case True
    have e: "number_end (w2 @ 0x5D # rest)"
      using ws2 by (simp add: number_end_sep number_end_cases)
    have p: "parse_value n (pr v @ w2 @ 0x5D # rest) = Some (f v, w2 @ 0x5D # rest)"
      using Cons.prems(2) [of v n, OF _ fv e] by simp
    have s: "skip_ws (w2 @ 0x5D # rest) = 0x5D # rest"
      using skip_ws_append [OF ws2, of "0x5D" rest] by (simp add: is_ws_def)
    show ?thesis
      using True p s by (simp add: n)
  next
    case False
    let ?J = "join (0x2C # w1) (map pr vs) @ w2 @ 0x5D # rest"
    obtain t where t: "join (0x2C # w1) (map pr vs) = pr (hd vs) @ t"
      using join_head [of "map pr vs" "0x2C # w1"] False by (auto simp: hd_map)
    obtain c cs where c: "pr (hd vs) = c # cs" "value_start c"
      using Cons.prems(1) [of "hd vs"] False by auto
    have J: "?J = c # cs @ t @ w2 @ 0x5D # rest"
      using t c by simp
    have e: "number_end (0x2C # w1 @ ?J)"
      by (simp add: number_end_cases)
    have p: "parse_value n (pr v @ 0x2C # w1 @ ?J) = Some (f v, 0x2C # w1 @ ?J)"
      using Cons.prems(2) [of v n, OF _ fv e] by simp
    have s1: "skip_ws (0x2C # w1 @ ?J) = 0x2C # w1 @ ?J"
      by (simp add: skip_ws_cons is_ws_def)
    have s2: "skip_ws (w1 @ ?J) = ?J"
      unfolding J using skip_ws_append [OF ws1, of c] c(2) by (simp add: value_start_def)
    have fu: "sum_list (map (\<lambda>v. Suc (fuel_of v)) vs) \<le> n"
      using Cons.prems(4) n by simp
    have r: "parse_elements n ?J = Some (map f vs, rest)"
    proof (rule Cons.IH [OF _ _ False fu])
      fix v assume "v \<in> set vs"
      then show "\<exists>c cs. pr v = c # cs \<and> value_start c"
        using Cons.prems(1) [of v] by simp
    next
      fix v fuel rest
      assume "v \<in> set vs" "fuel_of v \<le> fuel" "number_end rest"
      then show "parse_value fuel (pr v @ rest) = Some (f v, rest)"
        using Cons.prems(2) [of v fuel rest] by simp
    qed
    have jo: "join (0x2C # w1) (map pr (v # vs)) @ w2 @ 0x5D # rest = pr v @ 0x2C # w1 @ ?J"
      using False by (cases vs) simp_all
    have "parse_elements (Suc n) (pr v @ 0x2C # w1 @ ?J) = Some (f v # map f vs, rest)"
      using s1 p s2 r by (simp del: join.simps)
    then show ?thesis
      unfolding jo n by simp
  qed
qed

lemma parse_members_join:
  assumes wg: "\<forall>c \<in> set gap. is_ws c" and wi: "\<forall>c \<in> set indent. is_ws c"
    and ws1: "\<forall>c \<in> set w1. is_ws c" and ws2: "\<forall>c \<in> set w2. is_ws c"
    and val: "\<And>k v fuel rest. (k, v) \<in> set kvs \<Longrightarrow> fuel_of v \<le> fuel \<Longrightarrow> number_end rest
                \<Longrightarrow> parse_value fuel (SerializeJSONProperty gap indent v @ rest) = Some (f v, rest)"
    and ne: "kvs \<noteq> []"
    and fuel: "sum_list (map (\<lambda>(k, v). Suc (fuel_of v)) kvs) \<le> fuel"
  shows "parse_members fuel (join (0x2C # w1) (map (member_text gap indent) kvs) @ w2 @ 0x7D # rest)
         = Some (map (\<lambda>(k, v). (k, f v)) kvs, rest)"
  using val ne fuel
proof (induction kvs arbitrary: fuel)
  case Nil
  then show ?case by simp
next
  case (Cons kv kvs)
  obtain k v where kv: "kv = (k, v)"
    by (cases kv) auto
  from Cons.prems(3) kv obtain n where n: "fuel = Suc n"
    by (cases fuel) auto
  have fv: "fuel_of v \<le> n"
    using Cons.prems(3) n kv by simp
  obtain c cs where c: "SerializeJSONProperty gap indent v = c # cs" "value_start c"
    using serialize_head [of gap indent v] by auto
  have member: "member_text gap indent kv @ tail =
        0x22 # QuoteJSONUnits k @ 0x22 # 0x3A # colon_sep gap
          @ SerializeJSONProperty gap indent v @ tail" for tail
    by (simp add: member_text_def kv QuoteJSONString_def)
  have key: "parse_chars (QuoteJSONUnits k @ 0x22 # 0x3A # colon_sep gap
          @ SerializeJSONProperty gap indent v @ tail)
        = Some (k, 0x3A # colon_sep gap @ SerializeJSONProperty gap indent v @ tail)" for tail
    by (rule parse_chars_quoted)
  have colon: "skip_ws (0x3A # colon_sep gap @ SerializeJSONProperty gap indent v @ tail)
        = 0x3A # colon_sep gap @ SerializeJSONProperty gap indent v @ tail" for tail
    by (simp add: skip_ws_cons is_ws_def)
  have after_colon: "skip_ws (colon_sep gap @ SerializeJSONProperty gap indent v @ tail)
        = SerializeJSONProperty gap indent v @ tail" for tail
    using skip_ws_append [OF ws_colon_sep, of c gap "cs @ tail"] c by (simp add: value_start_def)
  show ?case
  proof (cases "kvs = []")
    case True
    have e: "number_end (w2 @ 0x7D # rest)"
      using ws2 by (simp add: number_end_sep number_end_cases)
    have p: "parse_value n (SerializeJSONProperty gap indent v @ w2 @ 0x7D # rest)
          = Some (f v, w2 @ 0x7D # rest)"
      using Cons.prems(1) [of k v n, OF _ fv e] kv by simp
    have s: "skip_ws (w2 @ 0x7D # rest) = 0x7D # rest"
      using skip_ws_append [OF ws2, of "0x7D" rest] by (simp add: is_ws_def)
    have "parse_members (Suc n) (member_text gap indent kv @ w2 @ 0x7D # rest)
          = Some ([(k, f v)], rest)"
      unfolding member
      using key [of "w2 @ 0x7D # rest"] colon [of "w2 @ 0x7D # rest"]
        after_colon [of "w2 @ 0x7D # rest"] p s
      by simp
    then show ?thesis
      using True by (simp add: n kv)
  next
    case False
    let ?J = "join (0x2C # w1) (map (member_text gap indent) kvs) @ w2 @ 0x7D # rest"
    obtain t where t: "join (0x2C # w1) (map (member_text gap indent) kvs)
          = member_text gap indent (hd kvs) @ t"
      using join_head [of "map (member_text gap indent) kvs" "0x2C # w1"] False
      by (auto simp: hd_map)
    have J: "?J = 0x22 # QuoteJSONUnits (fst (hd kvs)) @ 0x22 # 0x3A # colon_sep gap
          @ SerializeJSONProperty gap indent (snd (hd kvs)) @ t @ w2 @ 0x7D # rest"
      using t by (simp add: member_text_def QuoteJSONString_def)
    have e: "number_end (0x2C # w1 @ ?J)"
      by (simp add: number_end_cases)
    have p: "parse_value n (SerializeJSONProperty gap indent v @ 0x2C # w1 @ ?J)
          = Some (f v, 0x2C # w1 @ ?J)"
      using Cons.prems(1) [of k v n, OF _ fv e] kv by simp
    have s1: "skip_ws (0x2C # w1 @ ?J) = 0x2C # w1 @ ?J"
      by (simp add: skip_ws_cons is_ws_def)
    have s2: "skip_ws (w1 @ ?J) = ?J"
      unfolding J using skip_ws_append [OF ws1, of "0x22"] by (simp add: is_ws_def)
    have fu: "sum_list (map (\<lambda>(k, v). Suc (fuel_of v)) kvs) \<le> n"
      using Cons.prems(3) n kv by simp
    have r: "parse_members n ?J = Some (map (\<lambda>(k, v). (k, f v)) kvs, rest)"
    proof (rule Cons.IH [OF _ False fu])
      fix k v fuel rest
      assume "(k, v) \<in> set kvs" "fuel_of v \<le> fuel" "number_end rest"
      then show "parse_value fuel (SerializeJSONProperty gap indent v @ rest) = Some (f v, rest)"
        using Cons.prems(1) [of k v fuel rest] by simp
    qed
    have jo: "join (0x2C # w1) (map (member_text gap indent) (kv # kvs)) @ w2 @ 0x7D # rest
          = member_text gap indent kv @ 0x2C # w1 @ ?J"
      using False by (cases kvs) simp_all
    have "parse_members (Suc n) (member_text gap indent kv @ 0x2C # w1 @ ?J)
          = Some ((k, f v) # map (\<lambda>(k, v). (k, f v)) kvs, rest)"
      unfolding member
      using key [of "0x2C # w1 @ ?J"] colon [of "0x2C # w1 @ ?J"]
        after_colon [of "0x2C # w1 @ ?J"] p s1 s2 r
      by (simp del: join.simps)
    then show ?thesis
      unfolding jo n by (simp add: kv)
  qed
qed

lemma leaf_null: "parse_value (Suc n) (js ''null'' @ rest) = Some (JNull, rest)"
  by simp

lemma leaf_bool:
  "parse_value (Suc n) ((if b then js ''true'' else js ''false'') @ rest) = Some (JBool b, rest)"
  by simp

lemma leaf_string: "parse_value (Suc n) (QuoteJSONString s @ rest) = Some (JString s, rest)"
  by (simp add: QuoteJSONString_def parse_chars_quoted)

lemma parse_number_zero:
  assumes "number_end rest"
  shows "parse_number (48 # rest) = Some (JNumber (Zero False), rest)"
proof -
  have de: "digit_end rest"
    using assms by (auto simp: number_end_def digit_end_def)
  have "parse_number ((if False then [0x2D] else []) @ [48] @ rest)
        = Some (JNumber (decimal False (digits_value ([48] @ [])) (0 - int (length ([]::ustring)))), rest)"
    by (rule parse_number_finish [OF _ _ _ de parse_fraction_none parse_exponent_none])
       (use number_end_take [OF assms] in \<open>simp_all add: is_digit_zero\<close>)
  then show ?thesis
    by (simp add: decimal_def digits_value_def)
qed

lemma leaf_number:
  assumes "number_end rest"
  shows "parse_value (Suc n) ((if is_finite x then Number_toString x else js ''null'') @ rest)
         = Some (reparsed (JNumber x), rest)"
proof (cases x)
  case (Zero neg)
  have "parse_value (Suc n) (48 # rest) = parse_number (48 # rest)"
    by simp
  then show ?thesis
    using Zero parse_number_zero [OF assms] by (simp add: Number_toString_def is_finite_def)
next
  case (Infinity neg)
  then show ?thesis by (simp add: is_finite_def)
next
  case (Finite neg m d e)
  obtain c cs where c: "Number_toString x = c # cs" "c = 0x2D \<or> is_digit c \<or> c = 0x49"
    using Number_toString_head [of x] by auto
  have nI: "c \<noteq> 0x49"
  proof
    assume "c = 0x49"
    let ?ds = "nat_to_string (10 * m + digit_of d)"
    obtain a as where a: "?ds = a # as"
      using nat_to_string_nonempty [of "10 * m + digit_of d"] by (cases ?ds) auto
    have "is_digit a"
      using nat_to_string_digits [of a "10 * m + digit_of d"] a by simp
    then have "a \<noteq> 0x49"
      by (auto simp: is_digit_def)
    moreover have "c = 0x2D \<or> c = a \<or> c = 48"
      using c(1) Finite a
      by (auto simp: Number_toString_def Let_def take_Cons' split: if_splits)
    ultimately show False
      using \<open>c = 0x49\<close> by auto
  qed
  have d: "c \<noteq> 0x6E" "c \<noteq> 0x74" "c \<noteq> 0x66" "c \<noteq> 0x22" "c \<noteq> 0x5B" "c \<noteq> 0x7B"
    using c(2) nI by (auto simp: is_digit_def)
  have "parse_value (Suc n) (c # cs @ rest) = parse_number (c # cs @ rest)"
    using d by simp
  then show ?thesis
    using number_round_trip [OF assms, of neg m d e] c(1) Finite by (simp add: is_finite_def)
qed

lemma empty_array: "parse_value (Suc n) ([0x5B, 0x5D] @ rest) = Some (JArray [], rest)"
  by (simp add: skip_ws_cons is_ws_def)

lemma empty_object: "parse_value (Suc n) ([0x7B, 0x7D] @ rest) = Some (JObject [], rest)"
  by (simp add: skip_ws_cons is_ws_def)

lemma array_step:
  assumes "skip_ws (w1 @ J) = J" and "take 1 J \<noteq> [0x5D]"
    and "parse_elements n J = Some (vs, rest)"
  shows "parse_value (Suc n) ([0x5B] @ w1 @ J) = Some (JArray vs, rest)"
  using assms by simp

lemma object_step:
  assumes "skip_ws (w1 @ J) = J" and "take 1 J \<noteq> [0x7D]"
    and "parse_members n J = Some (kvs, rest)"
  shows "parse_value (Suc n) ([0x7B] @ w1 @ J) = Some (JObject kvs, rest)"
  using assms by simp

subsection \<open>Values\<close>

lemma parse_value_serialize:
  assumes "\<forall>c \<in> set gap. is_ws c" and "\<forall>c \<in> set indent. is_ws c"
    and "number_end rest" and "fuel_of v \<le> fuel"
  shows "parse_value fuel (SerializeJSONProperty gap indent v @ rest) = Some (reparsed v, rest)"
  using assms(2-)
proof (induction v arbitrary: indent fuel rest)
  case JNull
  then obtain n where n: "fuel = Suc n"
    by (cases fuel) auto
  show ?case
    unfolding n SerializeJSONProperty.simps reparsed.simps by (rule leaf_null)
next
  case (JBool b)
  then obtain n where n: "fuel = Suc n"
    by (cases fuel) auto
  show ?case
    unfolding n SerializeJSONProperty.simps reparsed.simps by (rule leaf_bool)
next
  case (JNumber x)
  then obtain n where n: "fuel = Suc n"
    by (cases fuel) auto
  show ?case
    unfolding n SerializeJSONProperty.simps by (rule leaf_number [OF JNumber.prems(2)])
next
  case (JString s)
  then obtain n where n: "fuel = Suc n"
    by (cases fuel) auto
  show ?case
    unfolding n SerializeJSONProperty.simps reparsed.simps by (rule leaf_string)
next
  case (JArray vs)
  from JArray.prems obtain n where n: "fuel = Suc n"
    by (cases fuel) auto
  show ?case
  proof (cases "vs = []")
    case True
    have "SerializeJSONProperty gap indent (JArray vs) = [0x5B, 0x5D]"
      using True by simp
    then show ?thesis
      unfolding n using empty_array [of n rest] True by simp
  next
    case False
    let ?w1 = "open_sep gap indent"
    let ?w2 = "close_sep gap indent"
    let ?pr = "SerializeJSONProperty gap (indent @ gap)"
    let ?J = "join (0x2C # ?w1) (map ?pr vs) @ ?w2 @ 0x5D # rest"
    have w1: "\<forall>c \<in> set ?w1. is_ws c"
      using assms(1) JArray.prems(1) by (rule ws_open_sep)
    have w2: "\<forall>c \<in> set ?w2. is_ws c"
      using JArray.prems(1) by (rule ws_close_sep)
    have wi: "\<forall>c \<in> set (indent @ gap). is_ws c"
      using assms(1) JArray.prems(1) by auto
    have f: "sum_list (map (\<lambda>v. Suc (fuel_of v)) vs) \<le> n"
      using JArray.prems(3) n by simp
    have elems: "parse_elements n ?J = Some (map reparsed vs, rest)"
    proof (rule parse_elements_join [OF w1 w2 _ _ False f])
      fix v assume "v \<in> set vs"
      show "\<exists>c cs. ?pr v = c # cs \<and> value_start c"
        by (rule serialize_head)
    next
      fix v fuel rest
      assume "v \<in> set vs" "fuel_of v \<le> fuel" "number_end rest"
      then show "parse_value fuel (?pr v @ rest) = Some (reparsed v, rest)"
        using JArray.IH [of v "indent @ gap" rest fuel] wi by (simp del: parse_value.simps)
    qed
    obtain t where t: "join (0x2C # ?w1) (map ?pr vs) = ?pr (hd vs) @ t"
      using join_head [of "map ?pr vs" "0x2C # ?w1"] False by (auto simp: hd_map)
    obtain c cs where c: "?pr (hd vs) = c # cs" "value_start c"
      using serialize_head [of gap "indent @ gap" "hd vs"] by auto
    have J: "?J = c # cs @ t @ ?w2 @ 0x5D # rest"
      using t c by simp
    have s: "skip_ws (?w1 @ ?J) = ?J"
      unfolding J using skip_ws_append [OF w1, of c] c(2) by (simp add: value_start_def)
    have notclose: "take 1 ?J \<noteq> [0x5D]"
      unfolding J using c(2) by (simp add: value_start_def)
    have eq: "SerializeJSONProperty gap indent (JArray vs) @ rest = [0x5B] @ ?w1 @ ?J"
      using False by (simp add: serialize_array del: SerializeJSONProperty.simps)
    show ?thesis
      unfolding n eq reparsed.simps by (rule array_step [OF s notclose elems])
  qed
next
  case (JObject kvs)
  from JObject.prems obtain n where n: "fuel = Suc n"
    by (cases fuel) auto
  show ?case
  proof (cases "kvs = []")
    case True
    have "SerializeJSONProperty gap indent (JObject kvs) = [0x7B, 0x7D]"
      using True by simp
    then show ?thesis
      unfolding n using empty_object [of n rest] True by simp
  next
    case False
    let ?w1 = "open_sep gap indent"
    let ?w2 = "close_sep gap indent"
    let ?J = "join (0x2C # ?w1) (map (member_text gap (indent @ gap)) kvs) @ ?w2 @ 0x7D # rest"
    have w1: "\<forall>c \<in> set ?w1. is_ws c"
      using assms(1) JObject.prems(1) by (rule ws_open_sep)
    have w2: "\<forall>c \<in> set ?w2. is_ws c"
      using JObject.prems(1) by (rule ws_close_sep)
    have wi: "\<forall>c \<in> set (indent @ gap). is_ws c"
      using assms(1) JObject.prems(1) by auto
    have f: "sum_list (map (\<lambda>(k, v). Suc (fuel_of v)) kvs) \<le> n"
      using JObject.prems(3) n by simp
    have members: "parse_members n ?J = Some (map (\<lambda>(k, v). (k, reparsed v)) kvs, rest)"
    proof (rule parse_members_join [OF assms(1) wi w1 w2 _ False f])
      fix k v fuel rest
      assume "(k, v) \<in> set kvs" "fuel_of v \<le> fuel" "number_end rest"
      then show "parse_value fuel (SerializeJSONProperty gap (indent @ gap) v @ rest)
                 = Some (reparsed v, rest)"
        using JObject.IH [of "(k, v)" v "indent @ gap" rest fuel] wi
        by (simp del: parse_value.simps)
    qed
    obtain t where t: "join (0x2C # ?w1) (map (member_text gap (indent @ gap)) kvs)
          = member_text gap (indent @ gap) (hd kvs) @ t"
      using join_head [of "map (member_text gap (indent @ gap)) kvs" "0x2C # ?w1"] False
      by (auto simp: hd_map)
    have J: "?J = 0x22 # QuoteJSONUnits (fst (hd kvs)) @ 0x22 # 0x3A
          # colon_sep gap @ SerializeJSONProperty gap (indent @ gap) (snd (hd kvs)) @ t
          @ ?w2 @ 0x7D # rest"
      using t by (simp add: member_text_def QuoteJSONString_def)
    have s: "skip_ws (?w1 @ ?J) = ?J"
      unfolding J using skip_ws_append [OF w1, of "0x22"] by (simp add: is_ws_def)
    have notclose: "take 1 ?J \<noteq> [0x7D]"
      unfolding J by simp
    have eq: "SerializeJSONProperty gap indent (JObject kvs) @ rest = [0x7B] @ ?w1 @ ?J"
      using False by (simp add: serialize_object del: SerializeJSONProperty.simps)
    show ?thesis
      unfolding n eq reparsed.simps by (rule object_step [OF s notclose members])
  qed
qed

lemma join_length: "sum_list (map (\<lambda>x. Suc (length x)) xs) \<le> Suc (length (join (c # w) xs))"
  by (induction "c # w" xs rule: join.induct) simp_all

lemma fuel_le_length: "fuel_of v \<le> length (SerializeJSONProperty gap indent v)"
proof (induction v arbitrary: indent)
  case (JNumber x)
  obtain c cs where "Number_toString x = c # cs"
    using Number_toString_head [of x] by auto
  then show ?case by simp
next
  case (JString s)
  show ?case by (simp add: QuoteJSONString_def)
next
  case (JArray vs)
  let ?pr = "SerializeJSONProperty gap (indent @ gap)"
  have "sum_list (map (\<lambda>v. Suc (fuel_of v)) vs) \<le> sum_list (map (\<lambda>v. Suc (length (?pr v))) vs)"
    using JArray.IH by (intro sum_list_mono) simp
  also have "\<dots> = sum_list (map (\<lambda>x. Suc (length x)) (map ?pr vs))"
    by (simp add: comp_def)
  also have "\<dots> \<le> Suc (length (join (0x2C # open_sep gap indent) (map ?pr vs)))"
    by (rule join_length)
  finally show ?case
    by (simp add: serialize_array del: SerializeJSONProperty.simps)
next
  case (JObject kvs)
  let ?pr = "member_text gap (indent @ gap)"
  have "fuel_of (snd kv) \<le> length (?pr kv)" if "kv \<in> set kvs" for kv
  proof -
    have "fuel_of (snd kv) \<le> length (SerializeJSONProperty gap (indent @ gap) (snd kv))"
      using JObject.IH [of kv "snd kv" "indent @ gap"] that by (cases kv) simp
    then show ?thesis
      by (simp add: member_text_def)
  qed
  then have "sum_list (map (\<lambda>(k, v). Suc (fuel_of v)) kvs)
        \<le> sum_list (map (\<lambda>kv. Suc (length (?pr kv))) kvs)"
    by (intro sum_list_mono) (auto simp: case_prod_beta)
  also have "\<dots> = sum_list (map (\<lambda>x. Suc (length x)) (map ?pr kvs))"
    by (simp add: comp_def)
  also have "\<dots> \<le> Suc (length (join (0x2C # open_sep gap indent) (map ?pr kvs)))"
    by (rule join_length)
  finally show ?case
    by (simp add: serialize_object del: SerializeJSONProperty.simps)
qed simp_all

lemma JSON_parse_stringify: "JSON_parse (JSON_stringify v space) = Some (reparsed v)"
proof -
  let ?gap = "replicate (min space 10) (0x20::nat)"
  let ?s = "SerializeJSONProperty ?gap [] v"
  have g: "\<forall>c \<in> set ?gap. is_ws c"
    by (simp add: is_ws_def)
  obtain c cs where c: "?s = c # cs" "value_start c"
    using serialize_head [of ?gap "[]" v] by auto
  have s: "skip_ws ?s = ?s"
    unfolding c(1) using c(2) by (simp add: skip_ws_cons value_start_def)
  have f: "fuel_of v \<le> Suc (length ?s)"
    using fuel_le_length [of v ?gap "[]"] by simp
  have "parse_value (Suc (length ?s)) (?s @ []) = Some (reparsed v, [])"
    by (rule parse_value_serialize [OF g _ _ f]) (simp_all add: number_end_cases)
  then have p: "parse_value (Suc (length ?s)) ?s = Some (reparsed v, [])"
    by (simp only: append_Nil2)
  show ?thesis
    unfolding JSON_parse_def JSON_stringify_def s p by (simp add: skip_ws_def)
qed


declare js_simps [simp del]

section \<open>Unknown tools\<close>

text \<open>
  Claim C1. A call of a tool name that is not in the catalog should fail with the
  ``method not found'' classification. The \<open>switch\<close> does throw that error, but inside the
  \<open>try\<close> block: the \<open>catch\<close> hands it to \<open>handleError\<close>, which finds neither a response nor
  a request on it and throws an internal error in its place. For every name outside the
  catalog the dispatch throws \<open>MethodNotFound\<close> and the handler surfaces \<open>InternalError\<close>.
\<close>

theorem unknown_tool_becomes_internal_error:
  assumes "nm \<notin> set (map name tools)"
  shows "dispatch srv net nm args = ([], Inl (Mcp (McpError MethodNotFound (js ''Unknown tool: '' @ nm))))
       \<and> call_tool srv net nm args =
           ([], Inl (McpError InternalError (js ''Request failed: MCP error -32601: Unknown tool: '' @ nm)))"
proof -
  have d: "dispatch srv net nm args = ([], Inl (Mcp (McpError MethodNotFound (js ''Unknown tool: '' @ nm))))"
    using assms by (simp add: tools_def dispatch_def throw_io_def)
  show ?thesis
    by (simp add: d call_tool_def handleError_def error_response_def error_request_def
        error_message_def McpError_message_def ErrorCode_number_def Number_toString_code)
qed

theorem unknown_tool_becomes_internal_error_witness:
  "js ''get_everything'' \<notin> set (map name tools)
   \<and> call_tool example_server acme_network (js ''get_everything'') None
       = ([], Inl (McpError InternalError (js ''Request failed: MCP error -32601: Unknown tool: get_everything'')))"
  using unknown_tool_becomes_internal_error [of "js ''get_everything''" example_server acme_network None]
  by (simp add: tools_def)

section \<open>The get_user scenario\<close>

text \<open>
  Claim C2. On a server started from an environment whose base URL is \<open>base\<close>, dispatching
  \<open>get_user\<close> with \<open>{userId: "123"}\<close> hands exactly one request to the network: a GET with
  base path \<open>base/api/v1\<close> and path \<open>/users/123\<close>. When the network answers it with status
  200 and the body \<open>{"id":"123","name":"Acme"}\<close>, the result is a single text item whose
  text is that body printed with two spaces of indentation.
\<close>

theorem get_user_scenario:
  assumes "startup environment net0 = (tr0, Running srv)"
    and "environment (js ''ILEVEL_BASE_URL'') = Some base"
    and "net ((client (iLevelClient srv))\<lparr>method := Some (JString (js ''GET'')),
                 url := Some (JString (js ''/users/123'')), params := None\<rparr>) = Replied 200 acme"
  shows "call_tool srv net (js ''get_user'') (Some [(js ''userId'', JString (js ''123''))]) =
           ([(client (iLevelClient srv))\<lparr>method := Some (JString (js ''GET'')),
                 url := Some (JString (js ''/users/123'')), params := None\<rparr>],
            Inr \<lparr>content = [\<lparr>type = js ''text'', text = acme_text\<rparr>]\<rparr>)
       \<and> baseURL (client (iLevelClient srv)) @ js ''/users/123'' = base @ js ''/api/v1/users/123''"
proof -
  have "call_tool srv net (js ''get_user'') (Some [(js ''userId'', JString (js ''123''))]) =
           ([(client (iLevelClient srv))\<lparr>method := Some (JString (js ''GET'')),
                 url := Some (JString (js ''/users/123'')), params := None\<rparr>],
            Inr (formatResponse acme))"
    using assms(3) by (simp add: call_tool_def get_user_dispatch template_def fetch_def)
  moreover have "baseURL (client (iLevelClient srv)) @ js ''/users/123'' = base @ js ''/api/v1/users/123''"
    using startup_client [OF assms(1,2)] by simp
  ultimately show ?thesis
    by (simp only: formatResponse_acme simp_thms)
qed

theorem get_user_scenario_witness:
  "call_tool example_server acme_network (js ''get_user'') (Some [(js ''userId'', JString (js ''123''))]) =
     ([(client (iLevelClient example_server))\<lparr>method := Some (JString (js ''GET'')),
          url := Some (JString (js ''/users/123'')), params := None\<rparr>],
      Inr \<lparr>content = [\<lparr>type = js ''text'', text = acme_text\<rparr>]\<rparr>)
   \<and> baseURL (client (iLevelClient example_server)) @ js ''/users/123''
       = js ''https://sandapi.ilevelsolutions.com'' @ js ''/api/v1/users/123''"
  by (rule get_user_scenario [OF startup_example example_base acme_network_replies])

section \<open>Remote errors\<close>

text \<open>
  Claim C3, as stated, fails for a body that is a string. \<open>handleError\<close> puts
  \<open>JSON.stringify(error.response.data)\<close> into the message, not the body's text: a string
  body goes in between quotes, with its quotes, backslashes and control characters
  escaped. When the remote service answers \<open>get_users\<close> with status 500 and the string of
  the three characters \<open>a\<close>, double quote, \<open>b\<close>, the message ends in the eight characters
  double quote, \<open>a\<close>, backslash, double quote, \<open>b\<close>, double quote, and the body's own text
  occurs nowhere in it.
\<close>

theorem remote_error_quotes_string_body:
  "call_tool example_server quote_network (js ''get_users'') None =
     ([(client (iLevelClient example_server))\<lparr>method := Some (JString (js ''GET'')),
          url := Some (JString (js ''/users'')), params := None\<rparr>],
      Inl (McpError InternalError
             (js ''iLevel API error: 500 - '' @ [0x22, 0x61, 0x5C, 0x22, 0x62, 0x22])))
   \<and> quote_network ((client (iLevelClient example_server))\<lparr>method := Some (JString (js ''GET'')),
          url := Some (JString (js ''/users'')), params := None\<rparr>)
       = Replied 500 (JString [0x61, 0x22, 0x62])
   \<and> \<not> sublist [0x61, 0x22, 0x62]
         (McpError_message (McpError InternalError
            (js ''iLevel API error: 500 - '' @ [0x22, 0x61, 0x5C, 0x22, 0x62, 0x22])))"
proof -
  have d: "dispatch example_server quote_network (js ''get_users'') None =
      fetch quote_network ((client (iLevelClient example_server))\<lparr>method := Some (JString (js ''GET'')),
          url := Some (JString (js ''/users'')), params := None\<rparr>)"
    by (simp add: dispatch_unfold)
  have q: "JSON_stringify (JString [0x61, 0x22, 0x62]) 0 = [0x22, 0x61, 0x5C, 0x22, 0x62, 0x22]"
    by (simp add: stringify_simps)
  have first: "call_tool example_server quote_network (js ''get_users'') None =
     ([(client (iLevelClient example_server))\<lparr>method := Some (JString (js ''GET'')),
          url := Some (JString (js ''/users'')), params := None\<rparr>],
      Inl (McpError InternalError
             (js ''iLevel API error: 500 - '' @ [0x22, 0x61, 0x5C, 0x22, 0x62, 0x22])))"
    by (simp add: call_tool_def d fetch_def quote_network_def handleError_def error_response_def
        Number_toString_500 q)
  have m: "McpError_message (McpError InternalError
            (js ''iLevel API error: 500 - '' @ [0x22, 0x61, 0x5C, 0x22, 0x62, 0x22]))
        = js ''MCP error -32603: iLevel API error: 500 - '' @ [0x22, 0x61, 0x5C, 0x22, 0x62, 0x22]"
    by (simp add: McpError_message_def ErrorCode_number_def Number_toString_internal)
  have absent: "\<not> sublist [0x61, 0x22, 0x62]
         (McpError_message (McpError InternalError
            (js ''iLevel API error: 500 - '' @ [0x22, 0x61, 0x5C, 0x22, 0x62, 0x22])))"
    unfolding m by (simp add: js_simps sublist_code)
  show ?thesis
    using first absent by (simp add: quote_network_def)
qed

text \<open>
  Claim C3, amended. For every tool call whose request the remote service answers with a
  status outside 200..299 (the connection test apart, which reports every failure as
  \<open>connected: false\<close>), the handler throws an internal error whose message is
  \<open>iLevel API error: <status> - <body>\<close>, the body as \<open>JSON.stringify\<close> prints it: the
  message contains the decimal status code and that serialisation of the body, which for
  a string body is the quoted and escaped string.
\<close>

theorem remote_error_surfaces_status_and_body:
  assumes "nm \<noteq> js ''test_connection''"
    and "call_tool srv net nm args = (tr, res)"
    and "req \<in> set tr"
    and "net req = Replied st body"
    and "\<not> (200 \<le> st \<and> st < 300)"
  shows "res = Inl (McpError InternalError
                     (js ''iLevel API error: '' @ Number_toString (Number_of_int st) @ js '' - ''
                        @ JSON_stringify body 0))
       \<and> sublist (Number_toString (Number_of_int st)) (McpError_message (projl res))
       \<and> sublist (JSON_stringify body 0) (McpError_message (projl res))
       \<and> (\<forall>s. body = JString s \<longrightarrow> JSON_stringify body 0 = [0x22] @ QuoteJSONUnits s @ [0x22])"
proof -
  from dispatch_shape [OF assms(1), of srv net args]
  obtain r where f: "dispatch srv net nm args = fetch net r"
    using assms(2,3) by (auto simp: call_tool_def tool_shape_def)
  have tr: "tr = [r]"
    using assms(2) f by (auto simp: call_tool_def fetch_def split: sum.splits)
  then have r: "r = req"
    using assms(3) by simp
  have res: "res = Inl (McpError InternalError
                     (js ''iLevel API error: '' @ Number_toString (Number_of_int st) @ js '' - ''
                        @ JSON_stringify body 0))"
    using assms(2,4,5) f r
    by (auto simp: call_tool_def fetch_def handleError_def error_response_def split: sum.splits)
  have s1: "sublist (Number_toString (Number_of_int st)) (McpError_message (projl res))"
    unfolding res by (simp only: sum.sel message_contains)
  have s2: "sublist (JSON_stringify body 0) (McpError_message (projl res))"
    using message_contains [of "JSON_stringify body 0" InternalError
        "js ''iLevel API error: '' @ Number_toString (Number_of_int st) @ js '' - ''" "[]"]
    unfolding res by (simp only: sum.sel append_Nil2 append_assoc)
  have s3: "\<forall>s. body = JString s \<longrightarrow> JSON_stringify body 0 = [0x22] @ QuoteJSONUnits s @ [0x22]"
    by (simp add: JSON_stringify_def QuoteJSONString_def)
  show ?thesis using res s1 s2 s3 by blast
qed

theorem remote_error_surfaces_status_and_body_witness:
  "call_tool example_server failing_network (js ''get_users'') None =
     ([(client (iLevelClient example_server))\<lparr>method := Some (JString (js ''GET'')),
          url := Some (JString (js ''/users'')), params := None\<rparr>],
      Inl (McpError InternalError
             (js ''iLevel API error: 500 - '' @ [0x22] @ js ''Service Unavailable'' @ [0x22])))"
proof -
  let ?req = "(client (iLevelClient example_server))\<lparr>method := Some (JString (js ''GET'')),
          url := Some (JString (js ''/users'')), params := None\<rparr>"
  have t: "fst (call_tool example_server failing_network (js ''get_users'') None) = [?req]"
    by (simp add: call_tool_trace dispatch_unfold fetch_trace)
  have q: "JSON_stringify (JString (js ''Service Unavailable'')) 0
      = [0x22] @ js ''Service Unavailable'' @ [0x22]"
    by (simp add: stringify_simps)
  have "snd (call_tool example_server failing_network (js ''get_users'') None)
      = Inl (McpError InternalError
               (js ''iLevel API error: '' @ Number_toString (Number_of_int 500) @ js '' - ''
                  @ JSON_stringify (JString (js ''Service Unavailable'')) 0))"
    using remote_error_surfaces_status_and_body
      [of "js ''get_users''" example_server failing_network None "[?req]"
          "snd (call_tool example_server failing_network (js ''get_users'') None)" ?req 500
          "JString (js ''Service Unavailable'')"] t
    by (simp add: failing_network_def prod_eq_iff)
  then show ?thesis
    using t by (simp add: prod_eq_iff Number_toString_500 q)
qed

section \<open>The text of a successful call\<close>











section \<open>Process start\<close>

text \<open>
  Claim C5. When any of the three required variables (base URL, user name, password) is
  absent from the environment, the process exits with status 1, which is not zero, and
  has handed no request to the network.
\<close>

theorem startup_missing_config_exits:
  assumes "environment (js ''ILEVEL_BASE_URL'') = None \<or> environment (js ''ILEVEL_USERNAME'') = None
           \<or> environment (js ''ILEVEL_PASSWORD'') = None"
  shows "startup environment net = ([], Exited 1) \<and> (1::nat) \<noteq> 0"
  using assms by (auto simp: startup_def split: option.splits)

theorem startup_missing_config_exits_witness:
  "startup [js ''ILEVEL_BASE_URL'' \<mapsto> js ''https://sandapi.ilevelsolutions.com''] acme_network = ([], Exited 1)"
  using startup_missing_config_exits
    [of "[js ''ILEVEL_BASE_URL'' \<mapsto> js ''https://sandapi.ilevelsolutions.com'']" acme_network]
  by simp

section \<open>The connectivity probe\<close>

text \<open>
  Claim C6. \<open>testConnection\<close> hands exactly one request to the network, a GET of \<open>/users\<close>,
  and always resolves to a boolean, never rejecting: the boolean is true exactly when that
  GET did not throw, which is exactly when the network answered with a status from 200 to
  299; a status outside that range, no answer (which is also how the timeout ends) and a
  request that could not be sent all give false.
\<close>

theorem testConnection_probe:
  "testConnection this net =
     ([(client this)\<lparr>method := Some (JString (js ''GET'')), url := Some (JString (js ''/users'')), params := None\<rparr>],
      Inr (\<not> isl (snd (axios_get net (client this) (js ''/users'') None))))
   \<and> (\<not> isl (snd (axios_get net (client this) (js ''/users'') None)) \<longleftrightarrow>
        (case net ((client this)\<lparr>method := Some (JString (js ''GET'')), url := Some (JString (js ''/users'')), params := None\<rparr>) of
           Replied st body \<Rightarrow> 200 \<le> st \<and> st < 300
         | NoReply msg \<Rightarrow> False
         | NotSent msg \<Rightarrow> False))"
  by (simp add: testConnection_def axios_get_def axios_request_def split: outcome.splits)

theorem testConnection_probe_witness:
  "snd (testConnection (iLevelClient example_server) failing_network) = Inr False
   \<and> snd (testConnection (iLevelClient example_server) silent_network) = Inr False
   \<and> snd (testConnection (iLevelClient example_server) acme_network) = Inr True"
  using testConnection_probe [of "iLevelClient example_server" failing_network]
    testConnection_probe [of "iLevelClient example_server" silent_network]
    testConnection_probe [of "iLevelClient example_server" acme_network]
  by (simp add: failing_network_def silent_network_def acme_network_def)

section \<open>The configuration resource\<close>

text \<open>
  Claim C7. On a running server, reading \<open>ilevel://config\<close> returns the JSON text, indented
  by two spaces, of an object with exactly the four members \<open>baseUrl\<close>, \<open>username\<close>,
  \<open>isSandbox\<close> and \<open>apiVersion\<close> (the password is not among them): the text is what
  \<open>JSON.stringify\<close> prints for that object, and parsing it gives that object back. Reading
  any other URI fails with the ``invalid request'' classification; neither hands a request
  to the network.
\<close>

theorem read_resource_config_snapshot:
  assumes "startup environment net = (tr, Running srv)"
  shows "\<exists>base user r.
           environment (js ''ILEVEL_BASE_URL'') = Some base
           \<and> environment (js ''ILEVEL_USERNAME'') = Some user
           \<and> read_resource srv (js ''ilevel://config'') = ([], Inr r)
           \<and> r = \<lparr>contents =
                  [\<lparr>uri = js ''ilevel://config'', mimeType = js ''application/json'',
                    contents_text =
                      JSON_stringify
                        (JObject [(js ''baseUrl'', JString base), (js ''username'', JString user),
                                  (js ''isSandbox'',
                                   JBool (environment (js ''ILEVEL_SANDBOX'') = Some (js ''true''))),
                                  (js ''apiVersion'', JString (js ''v1''))]) 2\<rparr>]\<rparr>
           \<and> JSON_parse (contents_text (hd (contents r))) =
               Some (JObject [(js ''baseUrl'', JString base), (js ''username'', JString user),
                              (js ''isSandbox'',
                               JBool (environment (js ''ILEVEL_SANDBOX'') = Some (js ''true''))),
                              (js ''apiVersion'', JString (js ''v1''))])
           \<and> (\<forall>u. u \<noteq> js ''ilevel://config'' \<longrightarrow>
                  read_resource srv u = ([], Inl (McpError InvalidRequest (js ''Unknown resource: '' @ u))))"
  using startup_running [OF assms]
  by (auto simp: read_resource_def constructor_eq object_literal_def JSON_parse_stringify)

lemma example_config_pretty:
  "JSON_stringify
     (JObject [(js ''baseUrl'', JString (js ''https://sandapi.ilevelsolutions.com'')),
               (js ''username'', JString (js ''analyst'')),
               (js ''isSandbox'', JBool True),
               (js ''apiVersion'', JString (js ''v1''))]) 2 = example_config_text"
  by (simp add: example_config_text_def stringify_simps)

theorem read_resource_config_snapshot_witness:
  "read_resource example_server (js ''ilevel://config'') =
     ([], Inr \<lparr>contents =
        [\<lparr>uri = js ''ilevel://config'', mimeType = js ''application/json'',
          contents_text = example_config_text\<rparr>]\<rparr>)
   \<and> JSON_parse example_config_text =
       Some (JObject [(js ''baseUrl'', JString (js ''https://sandapi.ilevelsolutions.com'')),
                      (js ''username'', JString (js ''analyst'')),
                      (js ''isSandbox'', JBool True),
                      (js ''apiVersion'', JString (js ''v1''))])
   \<and> read_resource example_server (js ''bad://uri'') =
       ([], Inl (McpError InvalidRequest (js ''Unknown resource: bad://uri'')))"
proof -
  from read_resource_config_snapshot [OF startup_example [of silent_network]]
  show ?thesis
    by (auto simp: example_env_def example_config_pretty)
qed

section \<open>The client constructor\<close>

text \<open>
  Claim C8. The constructor sets the session's defaults to the base path
  \<open>baseUrl/api/version\<close>, Basic authentication with the configured user name and password,
  JSON \<open>Content-Type\<close> and \<open>Accept\<close> headers and a timeout of 30000 milliseconds; the version
  is \<open>v1\<close> when the configuration has no \<open>apiVersion\<close> property and the property's value
  otherwise (an \<open>apiVersion\<close> that is present but \<open>undefined\<close> reads \<open>undefined\<close>). Every
  request of every tool call and of the probe carries these four settings.
\<close>

theorem constructor_configures_session:
  assumes "config_ref < length h"
    and "ILevelClient_constructor h config_ref = (h', c)"
  shows "client c =
           \<lparr>baseURL = baseUrl (h ! config_ref) @ js ''/api/''
                        @ (case apiVersion (h ! config_ref) of
                             Absent \<Rightarrow> js ''v1'' | Undefined \<Rightarrow> js ''undefined'' | Present v \<Rightarrow> v),
            auth = (username (h ! config_ref), password (h ! config_ref)),
            headers = [(js ''Content-Type'', js ''application/json''), (js ''Accept'', js ''application/json'')],
            timeout = 30000, method = None, url = None, params = None, data = None\<rparr>
       \<and> (\<forall>srv net nm args. iLevelClient srv = c \<longrightarrow>
            (\<forall>req \<in> set (fst (call_tool srv net nm args)).
               baseURL req = baseURL (client c) \<and> auth req = auth (client c)
               \<and> headers req = headers (client c) \<and> timeout req = 30000))
       \<and> (\<forall>net. \<forall>req \<in> set (fst (testConnection c net)).
               baseURL req = baseURL (client c) \<and> auth req = auth (client c)
               \<and> headers req = headers (client c) \<and> timeout req = 30000)"
proof -
  have c: "client c =
           \<lparr>baseURL = baseUrl (h ! config_ref) @ js ''/api/''
                        @ (case apiVersion (h ! config_ref) of
                             Absent \<Rightarrow> js ''v1'' | Undefined \<Rightarrow> js ''undefined'' | Present v \<Rightarrow> v),
            auth = (username (h ! config_ref), password (h ! config_ref)),
            headers = [(js ''Content-Type'', js ''application/json''), (js ''Accept'', js ''application/json'')],
            timeout = 30000, method = None, url = None, params = None, data = None\<rparr>"
    using assms(2) by (auto simp: constructor_eq version_segment_def)
  have t: "timeout (client c) = 30000"
    by (simp add: c)
  have d: "baseURL req = baseURL (client c) \<and> auth req = auth (client c)
               \<and> headers req = headers (client c) \<and> timeout req = 30000"
    if "iLevelClient srv = c" and "req \<in> set (fst (call_tool srv net nm args))" for srv net nm args req
    using dispatch_requests [of req srv net nm args] that t by (simp add: call_tool_trace)
  have p: "baseURL req = baseURL (client c) \<and> auth req = auth (client c)
               \<and> headers req = headers (client c) \<and> timeout req = 30000"
    if "req \<in> set (fst (testConnection c net))" for net req
    using that t
    by (auto simp: testConnection_def axios_get_def axios_request_def split: outcome.splits if_splits)
  show ?thesis
    using c d p by blast
qed

theorem constructor_configures_session_witness:
  "baseURL (client (snd (ILevelClient_constructor [example_config] 0)))
     = js ''https://sandapi.ilevelsolutions.com/api/v1''
   \<and> timeout (client (snd (ILevelClient_constructor [example_config] 0))) = 30000
   \<and> map timeout (fst (call_tool example_server acme_network (js ''get_users'') None)) = [30000]"
proof -
  have c: "client (snd (ILevelClient_constructor [example_config] 0)) =
         \<lparr>baseURL = js ''https://sandapi.ilevelsolutions.com/api/v1'',
          auth = (js ''analyst'', js ''secret''),
          headers = [(js ''Content-Type'', js ''application/json''), (js ''Accept'', js ''application/json'')],
          timeout = 30000, method = None, url = None, params = None, data = None\<rparr>"
    using constructor_configures_session [of 0 "[example_config]", OF _ example_constructor]
    by (simp add: example_config_def constructor_eq version_segment_def)
  have t: "fst (call_tool example_server acme_network (js ''get_users'') None)
      = [(client (iLevelClient example_server))\<lparr>method := Some (JString (js ''GET'')),
            url := Some (JString (js ''/users'')), params := None\<rparr>]"
    by (simp add: call_tool_trace dispatch_unfold fetch_trace)
  have s: "iLevelClient example_server = snd (ILevelClient_constructor [example_config] 0)"
    by (simp add: example_server_def)
  show ?thesis
    by (simp add: t s c)
qed

text \<open>
  Claim C9. The constructor leaves every object that was in the heap before the call as
  it was, the caller's configuration object among them: the object it stores in
  \<open>this.config\<close> is a new one. A caller's object without an \<open>apiVersion\<close> property still
  has none after the call, while the new object has \<open>apiVersion = 'v1'\<close>; so the
  configuration the running server reads for its resource has no \<open>apiVersion\<close>.
\<close>

theorem constructor_keeps_caller_config:
  assumes "config_ref < length h"
    and "ILevelClient_constructor h config_ref = (h', c)"
  shows "(\<forall>a < length h. h' ! a = h ! a)
       \<and> this_config c = length h \<and> this_config c \<noteq> config_ref
       \<and> length h' = Suc (length h)
       \<and> (apiVersion (h ! config_ref) = Absent \<longrightarrow>
            apiVersion (h' ! config_ref) = Absent \<and> apiVersion (h' ! this_config c) = Present (js ''v1''))
       \<and> (\<forall>environment net tr srv. startup environment net = (tr, Running srv) \<longrightarrow>
            apiVersion (heap srv ! config srv) = Absent)"
proof -
  have "apiVersion (heap srv ! config srv) = Absent"
    if "startup environment net = (tr, Running srv)" for environment net tr srv
    using startup_running [OF that] by (auto simp: constructor_eq)
  then show ?thesis
    using assms by (auto simp: constructor_eq nth_append)
qed

theorem constructor_keeps_caller_config_witness:
  "(0::nat) < length [example_config]
   \<and> fst (ILevelClient_constructor [example_config] 0) ! 0 = example_config
   \<and> apiVersion (fst (ILevelClient_constructor [example_config] 0) ! 0) = Absent
   \<and> apiVersion (fst (ILevelClient_constructor [example_config] 0) ! 1) = Present (js ''v1'')"
  using constructor_keeps_caller_config [of 0 "[example_config]",
      OF _ example_constructor]
  by (simp add: example_constructor) (simp add: example_config_def)

section \<open>The catalog and the switch\<close>

text \<open>
  Claim C10. The catalog lists 19 tools with distinct names, and for each of these names
  the \<open>switch\<close> has a case: whatever the arguments and the network, the dispatch never
  throws the protocol error of the \<open>default\<close> branch (it throws no protocol error at all).
\<close>

theorem catalog_names_have_cases:
  "length tools = 19 \<and> distinct (map name tools)
   \<and> (\<forall>nm \<in> set (map name tools). \<forall>srv net args m. snd (dispatch srv net nm args) \<noteq> Inl (Mcp m))"
  apply (intro conjI)
    apply (simp add: tools_def)
   apply (simp add: tools_def)
  apply (simp add: tools_def)
  apply (simp add: dispatch_unfold fetch_not_mcp split: option.splits)
  done

theorem catalog_names_have_cases_witness:
  "js ''get_user'' \<in> set (map name tools)
   \<and> snd (dispatch example_server acme_network (js ''get_user'') None)
       \<noteq> Inl (Mcp (McpError MethodNotFound (js ''Unknown tool: get_user'')))"
  using catalog_names_have_cases by (simp add: tools_def)

end
